theory Spec2Isabelle
  imports Complex_Main "HOL-Library.AList"
begin

section \<open>Values, errors and promises\<close>

text \<open>
  Tool arguments, parameter schemas and metadata have the TypeScript type \<open>unknown\<close> or
  \<open>Record<string, unknown>\<close>; at run time they are JSON values (the arguments are the
  result of \<open>JSON.parse\<close>, or the raw string when parsing fails). Numbers are kept
  integral: no operation of the engine computes with them.
\<close>

datatype json =
    JNull
  | JBool bool
  | JNum int
  | JStr string
  | JArr "json list"
  | JObj "(string \<times> json) list"

text \<open>
  The values a \<open>throw\<close> carries that can be put into words. \<open>Error m\<close> is \<open>new Error(m)\<close>
  (or an instance of a built-in subclass such as \<open>TypeError\<close>); \<open>AgentError m code\<close> is an
  instance of \<open>AgentError\<close> or of one of its subclasses in \<open>utils.ts\<close> other than
  \<open>LLMError\<close> (message and code); \<open>LLMError m\<close> is an instance of \<open>LLMError\<close>, whose code is
  \<open>LLM_ERROR\<close>; \<open>NonError s\<close> is a thrown value that is not an \<open>Error\<close> instance and that
  \<open>String\<close> converts, kept as the string \<open>String(value)\<close> gives for it.
\<close>

datatype js_error =
    Error string
  | AgentError string string
  | LLMError string
  | NonError string

text \<open>\<open>error instanceof Error ? error.message : String(error)\<close>, on such a value.\<close>

fun errorMessage :: "js_error \<Rightarrow> string" where
  "errorMessage (Error m) = m"
| "errorMessage (AgentError m code) = m"
| "errorMessage (LLMError m) = m"
| "errorMessage (NonError s) = s"

text \<open>\<open>error instanceof Error ? error : new Error(String(error))\<close>\<close>

fun asError :: "js_error \<Rightarrow> js_error" where
  "asError (NonError s) = Error s"
| "asError e = e"

text \<open>
  A promise that settles is modelled by its settled state: the number of milliseconds after
  which it settles (counted from its creation) and its outcome, \<open>Inl\<close> for a rejection and
  \<open>Inr\<close> for a fulfilment. \<open>resolved\<close> is the \<open>return\<close> of an async function,
  \<open>rejected\<close> its \<open>throw\<close>, \<open>await_then\<close> is \<open>await p\<close> followed by the rest of the
  function, and \<open>try_catch\<close> is a \<open>try { ... } catch (error) { ... }\<close> around awaited code.
\<close>

type_synonym 'a promise = "nat \<times> (js_error + 'a)"

text \<open>
  The code that is handed to the engine from outside, a tool or a hook of the executor,
  can throw any value at all: one of the values above, or a value that is not an \<open>Error\<close>
  instance and that \<open>String\<close> cannot convert, such as an object without a prototype.
  \<open>Unconvertible e\<close> is such a value, \<open>e\<close> being the error that \<open>String(value)\<close> throws for
  it: a \<open>TypeError\<close>, or what the \<open>toString\<close> method of the value throws.
\<close>

datatype thrown_value =
    Thrown js_error
  | Unconvertible js_error

type_synonym 'a user_promise = "nat \<times> (thrown_value + 'a)"

text \<open>The promise of an async function of the engine, seen as the promise of a tool.\<close>

definition as_thrown :: "'a promise \<Rightarrow> 'a user_promise" where
  "as_thrown p = (case p of (t, Inl e) \<Rightarrow> (t, Inl (Thrown e)) | (t, Inr v) \<Rightarrow> (t, Inr v))"

definition resolved :: "'a \<Rightarrow> 'a promise" where
  "resolved v = (0, Inr v)"

definition rejected :: "js_error \<Rightarrow> 'a promise" where
  "rejected e = (0, Inl e)"

fun await_then :: "'a promise \<Rightarrow> ('a \<Rightarrow> 'b promise) \<Rightarrow> 'b promise" where
  "await_then (t, Inl e) f = (t, Inl e)"
| "await_then (t, Inr v) f = (case f v of (t', r) \<Rightarrow> (t + t', r))"

fun try_catch :: "'a promise \<Rightarrow> (js_error \<Rightarrow> 'a promise) \<Rightarrow> 'a promise" where
  "try_catch (t, Inl e) h = (case h e of (t', r) \<Rightarrow> (t + t', r))"
| "try_catch (t, Inr v) h = (t, Inr v)"

text \<open>
  \<open>Promise.race([p, timeoutPromise])\<close> as the executor uses it: the timer is armed before
  the tool is started, so of two promises due at the same millisecond the timer is the
  first to settle.
\<close>

definition Promise_race_timeout :: "'a user_promise \<Rightarrow> 'a user_promise \<Rightarrow> 'a user_promise" where
  "Promise_race_timeout p timer = (if fst p < fst timer then p else timer)"

text \<open>
  \<open>Promise.all\<close>: fulfilled with the values in the order of the array once every element is
  fulfilled, rejected with the first rejection to happen (the earlier element when two
  happen at the same time).
\<close>

fun Promise_all :: "'a promise list \<Rightarrow> ('a list) promise" where
  "Promise_all [] = (0, Inr [])"
| "Promise_all ((t, Inr v) # ps) =
     (case Promise_all ps of
        (t', Inr vs) \<Rightarrow> (max t t', Inr (v # vs))
      | (t', Inl e') \<Rightarrow> (t', Inl e'))"
| "Promise_all ((t, Inl e) # ps) =
     (case Promise_all ps of
        (t', Inr vs) \<Rightarrow> (t, Inl e)
      | (t', Inl e') \<Rightarrow> (if t \<le> t' then (t, Inl e) else (t', Inl e')))"

text \<open>Template literals print numbers in decimal.\<close>

definition digit_char :: "nat \<Rightarrow> char" where
  "digit_char d = ''0123456789'' ! d"

function String_nat :: "nat \<Rightarrow> string" where
  "String_nat n =
     (if n < 10 then [digit_char n] else String_nat (n div 10) @ [digit_char (n mod 10)])"
  by pat_completeness auto
termination
  by (relation "measure (\<lambda>n. n)") auto

declare String_nat.simps [simp del]

text \<open>\<open>Array.prototype.join\<close>\<close>

fun join :: "string \<Rightarrow> string list \<Rightarrow> string" where
  "join sep [] = []"
| "join sep [x] = x"
| "join sep (x # y # ys) = x @ sep @ join sep (y # ys)"

section \<open>Messages, tools and sessions (types.ts)\<close>

record ToolCallContent =
  tc_id :: string
  tc_name :: string
  tc_arguments :: json

record ToolResultContent =
  tr_toolCallId :: string
  tr_result :: string
  tr_isError :: "bool option"

datatype MessageContent =
    TextC string
  | ToolCallC ToolCallContent
  | ToolResultC ToolResultContent

datatype Role = User | Assistant | ToolRole

record Message =
  msg_id :: string
  msg_role :: Role
  msg_content :: "MessageContent list"
  msg_createdAt :: nat

record ToolResult =
  res_output :: string
  res_metadata :: "json option"
  res_error :: "string option"

record ExecutionContext =
  sessionId :: string
  messageId :: string

text \<open>
  A tool's executor is an async function of the arguments and the execution context; the
  optional abort signal of the context is left out, since no code of the engine reads it.
  The executor is taken to leave the arguments object and the context object as they are.
\<close>

record Tool =
  name :: string
  description :: string
  parameters :: json
  execute :: "json \<Rightarrow> ExecutionContext \<Rightarrow> ToolResult user_promise"

record ToolDefinition =
  td_name :: string
  td_description :: string
  td_parameters :: json

record ModelConfig =
  mc_model :: string
  mc_maxTokens :: "nat option"
  mc_temperature :: "rat option"

datatype SessionStatus = Idle | Running | Completed | ErrorStatus

record Session =
  session_id :: string
  messages :: "Message list"
  systemPrompt :: string
  model_config :: ModelConfig
  status :: SessionStatus

section \<open>Tool registry (tool/registry.ts)\<close>

text \<open>
  The registry is a JavaScript \<open>Map\<close> from names to tools. A \<open>Map\<close> iterates in insertion
  order and \<open>set\<close> on a key that is present replaces the value in place, which is what
  \<open>AList.update\<close> does on an association list; the keys of a \<open>Map\<close> are distinct.
\<close>

type_synonym ToolRegistry = "(string \<times> Tool) list"

definition register :: "Tool \<Rightarrow> ToolRegistry \<Rightarrow> ToolRegistry" where
  "register tool r = AList.update (name tool) tool r"

fun registerMany :: "Tool list \<Rightarrow> ToolRegistry \<Rightarrow> ToolRegistry" where
  "registerMany [] r = r"
| "registerMany (tool # tools) r = registerMany tools (register tool r)"



definition get :: "ToolRegistry \<Rightarrow> string \<Rightarrow> Tool option" where
  "get r nm = map_of r nm"

definition getOrThrow :: "ToolRegistry \<Rightarrow> string \<Rightarrow> js_error + Tool" where
  "getOrThrow r nm =
     (case get r nm of
        None \<Rightarrow> Inl (AgentError (''Tool not found: '' @ nm) ''TOOL_NOT_FOUND'')
      | Some tool \<Rightarrow> Inr tool)"

definition list_tools :: "ToolRegistry \<Rightarrow> Tool list" where
  "list_tools r = map snd r"



definition clear :: "ToolRegistry \<Rightarrow> ToolRegistry" where
  "clear r = []"

definition toToolDefinitions :: "ToolRegistry \<Rightarrow> ToolDefinition list" where
  "toToolDefinitions r =
     map (\<lambda>tool. \<lparr>td_name = name tool, td_description = description tool,
                  td_parameters = parameters tool\<rparr>) (list_tools r)"

section \<open>Tool executor (tool/executor.ts)\<close>

text \<open>
  The timeout is a whole number of milliseconds. \<open>if (this.options.timeout)\<close> tests the
  number for truthiness: an absent timeout and a timeout of 0 both mean no timeout.

  A hook is an async function that is handed the call object, and after the execution the
  result object that \<open>execute\<close> is about to return. What \<open>execute\<close> can observe of a hook
  is the time it takes, the state in which it leaves the objects it was handed, and the
  value it throws, if any: \<open>(t, call', None)\<close> is a pre-execution hook that returns after
  \<open>t\<close> ms and leaves the call object as \<open>call'\<close>, and \<open>(t, (call', result'), Some e)\<close> a
  post-execution hook that throws \<open>e\<close> after \<open>t\<close> ms and leaves the two objects as \<open>call'\<close>
  and \<open>result'\<close>. The hooks are taken to leave the context object as it is.
\<close>

record ExecutorOptions =
  timeout :: "nat option"
  onBeforeExecute ::
    "(ToolCallContent \<Rightarrow> ExecutionContext \<Rightarrow> nat \<times> ToolCallContent \<times> thrown_value option) option"
  onAfterExecute ::
    "(ToolCallContent \<Rightarrow> ToolResultContent \<Rightarrow> ExecutionContext
        \<Rightarrow> nat \<times> (ToolCallContent \<times> ToolResultContent) \<times> thrown_value option) option"

definition no_options :: ExecutorOptions where
  "no_options = \<lparr>timeout = None, onBeforeExecute = None, onAfterExecute = None\<rparr>"

text \<open>
  \<open>setTimeout(callback, delay)\<close>: a delay above \<open>2^31 - 1\<close> ms is set to 1 ms by the
  runtime. The message of the timeout error prints the configured number.
\<close>

definition timer_delay :: "nat \<Rightarrow> nat" where
  "timer_delay ms = (if ms > 2147483647 then 1 else ms)"

definition timeoutPromise :: "nat \<Rightarrow> 'a user_promise" where
  "timeoutPromise ms =
     (timer_delay ms,
      Inl (Thrown (Error (''Tool execution timed out after '' @ String_nat ms @ ''ms''))))"

definition executeWithTimeout ::
  "ExecutorOptions \<Rightarrow> Tool \<Rightarrow> ToolCallContent \<Rightarrow> ExecutionContext \<Rightarrow> ToolResult user_promise" where
  "executeWithTimeout opts tool call ctx =
     (case timeout opts of
        Some ms \<Rightarrow>
          if ms \<noteq> 0
          then Promise_race_timeout (execute tool (tc_arguments call) ctx) (timeoutPromise ms)
          else execute tool (tc_arguments call) ctx
      | None \<Rightarrow> execute tool (tc_arguments call) ctx)"

text \<open>\<open>result.error ?? result.output\<close> and \<open>!!result.error\<close> (lines 70 to 75).\<close>

definition toolResultContent :: "ToolCallContent \<Rightarrow> ToolResult \<Rightarrow> ToolResultContent" where
  "toolResultContent call res =
     \<lparr>tr_toolCallId = tc_id call,
      tr_result = (case res_error res of Some e \<Rightarrow> e | None \<Rightarrow> res_output res),
      tr_isError = Some (case res_error res of Some e \<Rightarrow> e \<noteq> [] | None \<Rightarrow> False)\<rparr>"

text \<open>\<open>if (this.options.onBeforeExecute) await this.options.onBeforeExecute(call, ctx)\<close>\<close>

definition runBefore ::
  "ExecutorOptions \<Rightarrow> ToolCallContent \<Rightarrow> ExecutionContext
     \<Rightarrow> nat \<times> ToolCallContent \<times> thrown_value option" where
  "runBefore opts call ctx =
     (case onBeforeExecute opts of Some hook \<Rightarrow> hook call ctx | None \<Rightarrow> (0, call, None))"

text \<open>\<open>if (this.options.onAfterExecute) await this.options.onAfterExecute(call, toolResult, ctx)\<close>\<close>

definition runAfter ::
  "ExecutorOptions \<Rightarrow> ToolCallContent \<Rightarrow> ToolResultContent \<Rightarrow> ExecutionContext
     \<Rightarrow> nat \<times> (ToolCallContent \<times> ToolResultContent) \<times> thrown_value option" where
  "runAfter opts call toolResult ctx =
     (case onAfterExecute opts of
        Some hook \<Rightarrow> hook call toolResult ctx
      | None \<Rightarrow> (0, (call, toolResult), None))"

definition errorResult :: "ToolCallContent \<Rightarrow> string \<Rightarrow> ToolResultContent" where
  "errorResult call msg = \<lparr>tr_toolCallId = tc_id call, tr_result = msg, tr_isError = Some True\<rparr>"

text \<open>
  The \<open>catch\<close> block of \<open>execute\<close> (lines 82 to 90), entered \<open>t\<close> ms after the call with the
  call object as it is by then. The message is \<open>error.message\<close> for an \<open>Error\<close> instance and
  \<open>String(error)\<close> otherwise, evaluated with no guard around it: for a value that \<open>String\<close>
  cannot convert the block itself throws, and the promise of \<open>execute\<close> is rejected.
\<close>

definition on_catch :: "nat \<Rightarrow> ToolCallContent \<Rightarrow> thrown_value \<Rightarrow> ToolResultContent promise" where
  "on_catch t call error =
     (case error of
        Thrown e \<Rightarrow> (t, Inr (errorResult call (errorMessage e)))
      | Unconvertible e \<Rightarrow> (t, Inl e))"

text \<open>
  \<open>execute\<close>: the lookup, then the \<open>try\<close> block (lines 43 to 81) with its three awaited
  calls. The identifier of the result is read from the call object after the
  pre-execution hook has run, and the object returned is the one the post-execution hook
  was handed.
\<close>

definition execute_call ::
  "ToolRegistry \<Rightarrow> ExecutorOptions \<Rightarrow> ToolCallContent \<Rightarrow> ExecutionContext
     \<Rightarrow> ToolResultContent promise" where
  "execute_call r opts call ctx =
     (case get r (tc_name call) of
        None \<Rightarrow> resolved (errorResult call (''Tool not found: '' @ tc_name call))
      | Some tool \<Rightarrow>
          (case runBefore opts call ctx of
             (t0, call1, Some e) \<Rightarrow> on_catch t0 call1 e
           | (t0, call1, None) \<Rightarrow>
               (case executeWithTimeout opts tool call1 ctx of
                  (t1, Inl e) \<Rightarrow> on_catch (t0 + t1) call1 e
                | (t1, Inr res) \<Rightarrow>
                    (case runAfter opts call1 (toolResultContent call1 res) ctx of
                       (t2, (call2, toolResult), Some e) \<Rightarrow> on_catch (t0 + t1 + t2) call2 e
                     | (t2, (call2, toolResult), None) \<Rightarrow> (t0 + t1 + t2, Inr toolResult)))))"

definition executeAll ::
  "ToolRegistry \<Rightarrow> ExecutorOptions \<Rightarrow> ToolCallContent list \<Rightarrow> ExecutionContext
     \<Rightarrow> (ToolResultContent list) promise" where
  "executeAll r opts calls ctx = Promise_all (map (\<lambda>call. execute_call r opts call ctx) calls)"

fun executeSequential ::
  "ToolRegistry \<Rightarrow> ExecutorOptions \<Rightarrow> ToolCallContent list \<Rightarrow> ExecutionContext
     \<Rightarrow> (ToolResultContent list) promise" where
  "executeSequential r opts [] ctx = resolved []"
| "executeSequential r opts (call # calls) ctx =
     await_then (execute_call r opts call ctx) (\<lambda>res.
     await_then (executeSequential r opts calls ctx) (\<lambda>rest.
     resolved (res # rest)))"

section \<open>Built-ins and fresh values\<close>

text \<open>
  The built-ins and the sources of fresh values the engine calls: \<open>JSON.parse\<close> (\<open>None\<close>
  when it throws a \<open>SyntaxError\<close>), \<open>JSON.stringify\<close>, and the values the successive
  calls of \<open>generateId()\<close> and \<open>new Date()\<close> return. Every message the engine creates
  takes one identifier and one date, so both are indexed by the number of messages
  created so far.
\<close>

record Env =
  JSON_parse :: "string \<Rightarrow> json option"
  JSON_stringify :: "json \<Rightarrow> string"
  uuid :: "nat \<Rightarrow> string"
  now :: "nat \<Rightarrow> nat"

section \<open>External tool source adapter (mcp/client.ts)\<close>

text \<open>
  The content of a remote result is an array of items or any other value; an item is an
  object with a \<open>text\<close> property or anything else.
\<close>

datatype MCPContentItem = TextItem string | OtherItem json

datatype MCPContent = ContentArray "MCPContentItem list" | ContentOther json

record MCPCallResult =
  mcp_content :: MCPContent
  mcp_isError :: "bool option"

record MCPToolDefinition =
  mcp_name :: string
  mcp_description :: "string option"
  mcp_inputSchema :: json

datatype MCPTransport = Stdio | Sse | OtherTransport string

record MCPServerConfig =
  server_name :: string
  transport :: MCPTransport
  command :: "string option"
  args :: "string list option"
  url :: "string option"

text \<open>
  The remote host behind the SDK's \<open>Client\<close>: what its \<open>connect\<close>, \<open>close\<close>,
  \<open>listTools\<close> and \<open>callTool\<close> do.
\<close>

record MCPHost =
  host_connect :: "unit promise"
  host_close :: "unit promise"
  host_listTools :: "(MCPToolDefinition list) promise"
  host_callTool :: "string \<Rightarrow> json \<Rightarrow> MCPCallResult promise"

record MCPClient =
  mcp_config :: MCPServerConfig
  mcp_host :: MCPHost
  connected :: bool

text \<open>
  \<open>connect\<close>: the transport is made from the configuration and the SDK client connects
  through it. The URL of an SSE configuration is taken to be well formed.
\<close>

definition establish :: "MCPClient \<Rightarrow> MCPClient \<times> unit promise" where
  "establish c =
     (case host_connect (mcp_host c) of
        (t, Inl e) \<Rightarrow> (c, (t, Inl e))
      | (t, Inr u) \<Rightarrow> (c\<lparr>connected := True\<rparr>, (t, Inr ())))"

definition connect :: "MCPClient \<Rightarrow> MCPClient \<times> unit promise" where
  "connect c =
     (if connected c then (c, resolved ())
      else (case transport (mcp_config c) of
              Stdio \<Rightarrow>
                if command (mcp_config c) = None \<or> command (mcp_config c) = Some []
                then (c, rejected (Error ''Command is required for stdio transport''))
                else establish c
            | Sse \<Rightarrow>
                if url (mcp_config c) = None \<or> url (mcp_config c) = Some []
                then (c, rejected (Error ''URL is required for SSE transport''))
                else establish c
            | OtherTransport t \<Rightarrow> (c, rejected (Error (''Unsupported transport: '' @ t)))))"

definition disconnect :: "MCPClient \<Rightarrow> MCPClient \<times> unit promise" where
  "disconnect c =
     (if \<not> connected c then (c, resolved ())
      else (case host_close (mcp_host c) of
              (t, Inl e) \<Rightarrow> (c, (t, Inl e))
            | (t, Inr u) \<Rightarrow> (c\<lparr>connected := False\<rparr>, (t, Inr ()))))"

definition content_text :: "Env \<Rightarrow> MCPContent \<Rightarrow> string" where
  "content_text env content =
     (case content of
        ContentArray items \<Rightarrow>
          join ''\<newline>''
            (map (\<lambda>c. case c of TextItem t \<Rightarrow> t | OtherItem j \<Rightarrow> JSON_stringify env j) items)
      | ContentOther j \<Rightarrow> JSON_stringify env j)"

definition remoteToolResult :: "Env \<Rightarrow> MCPCallResult \<Rightarrow> ToolResult" where
  "remoteToolResult env res =
     (let out = content_text env (mcp_content res) in
      \<lparr>res_output = out, res_metadata = None,
       res_error = (if mcp_isError res = Some True then Some out else None)\<rparr>)"

definition callTool :: "Env \<Rightarrow> MCPClient \<Rightarrow> string \<Rightarrow> json \<Rightarrow> ToolResult promise" where
  "callTool env c nm arguments =
     (if \<not> connected c then rejected (Error ''MCP client is not connected'')
      else try_catch
             (await_then (host_callTool (mcp_host c) nm arguments) (\<lambda>res.
              resolved (remoteToolResult env res)))
             (\<lambda>e. resolved \<lparr>res_output = [], res_metadata = None,
                             res_error = Some (errorMessage e)\<rparr>))"

text \<open>
  The adapted tool calls \<open>this.callTool\<close>: it reads the client as it is when the tool is
  invoked, so the client given here is the client at the time of the invocation. The
  values that reach the \<open>catch\<close> block of \<open>callTool\<close> are thrown by the SDK client or by a
  built-in: they are \<open>Error\<close> instances, which is why the rejections of the host have the
  type of the values that can be put into words.
\<close>

definition adaptTool :: "Env \<Rightarrow> MCPClient \<Rightarrow> MCPToolDefinition \<Rightarrow> Tool" where
  "adaptTool env c mcpTool =
     \<lparr>name = mcp_name mcpTool,
      description = (case mcp_description mcpTool of Some d \<Rightarrow> d | None \<Rightarrow> []),
      parameters = mcp_inputSchema mcpTool,
      execute = (\<lambda>arguments ctx. as_thrown (callTool env c (mcp_name mcpTool) arguments))\<rparr>"

definition listTools :: "Env \<Rightarrow> MCPClient \<Rightarrow> (Tool list) promise" where
  "listTools env c =
     (if \<not> connected c then rejected (Error ''MCP client is not connected'')
      else await_then (host_listTools (mcp_host c)) (\<lambda>tools.
           resolved (map (adaptTool env c) tools)))"

section \<open>Inference adapter (llm/client.ts)\<close>

record LLMInput =
  in_model :: string
  in_messages :: "Message list"
  in_systemPrompt :: string
  in_tools :: "ToolDefinition list"
  in_maxTokens :: "nat option"
  in_temperature :: "rat option"

record Usage =
  inputTokens :: nat
  outputTokens :: nat

record LLMOutput =
  out_content :: "MessageContent list"
  out_finishReason :: string
  out_usage :: Usage

datatype LLMEvent =
    TextDelta string
  | ToolCallStart string string
  | ToolCallDelta string string
  | ToolCallEnd string string string
  | Finish string Usage
  | ErrorLLM js_error

text \<open>
  The answer of the inference backend to \<open>responses.create\<close>: the output items, the status
  and the usage. A function call item carries its arguments, call identifier, item
  identifier and name, each of which the adapter reads with a default.
\<close>

datatype OutputPart = OutputText string | OtherPart

datatype OutputItem =
    MessageItem "OutputPart list"
  | FunctionCallItem "string option" "string option" "string option" "string option"
  | OtherOutputItem

record ApiUsage =
  input_tokens :: nat
  output_tokens :: nat

record ApiResponse =
  api_output :: "OutputItem list"
  api_status :: "string option"
  api_usage :: "ApiUsage option"

text \<open>
  \<open>JSON.parse(item.arguments ?? "{}")\<close>, with the raw string when parsing throws; the parse
  of \<open>"{}"\<close> is the empty object.
\<close>

definition parse_or_raw :: "Env \<Rightarrow> string \<Rightarrow> json" where
  "parse_or_raw env s = (case JSON_parse env s of Some j \<Rightarrow> j | None \<Rightarrow> JStr s)"

fun parseOutputItem :: "Env \<Rightarrow> OutputItem \<Rightarrow> MessageContent list" where
  "parseOutputItem env (MessageItem parts) =
     concat (map (\<lambda>part. case part of OutputText t \<Rightarrow> [TextC t] | OtherPart \<Rightarrow> []) parts)"
| "parseOutputItem env (FunctionCallItem arguments call_id item_id nm) =
     [ToolCallC
        \<lparr>tc_id = (case call_id of Some c \<Rightarrow> c
                  | None \<Rightarrow> (case item_id of Some i \<Rightarrow> i | None \<Rightarrow> [])),
         tc_name = (case nm of Some n \<Rightarrow> n | None \<Rightarrow> []),
         tc_arguments = (case arguments of Some a \<Rightarrow> parse_or_raw env a | None \<Rightarrow> JObj [])\<rparr>]"
| "parseOutputItem env OtherOutputItem = []"

definition parseResponseOutput :: "Env \<Rightarrow> ApiResponse \<Rightarrow> MessageContent list" where
  "parseResponseOutput env response = concat (map (parseOutputItem env) (api_output response))"

definition mapResponseStatus :: "string \<Rightarrow> string" where
  "mapResponseStatus st =
     (if st = ''completed'' then ''stop''
      else if st = ''incomplete'' then ''max_tokens''
      else if st = ''failed'' then ''error''
      else ''stop'')"

text \<open>
  \<open>LLMClient.call\<close>. The request is built from the input alone, so the backend is given as
  a function of the input. An error that is not an instance of \<open>LLMError\<close> is wrapped in
  one (\<open>if (error instanceof LLMError) throw error\<close>).
\<close>

definition LLMClient_call ::
  "Env \<Rightarrow> (LLMInput \<Rightarrow> js_error + ApiResponse) \<Rightarrow> LLMInput \<Rightarrow> js_error + LLMOutput" where
  "LLMClient_call env backend input =
     (case backend input of
        Inl e \<Rightarrow>
          (case e of
             LLMError m \<Rightarrow> Inl e
           | _ \<Rightarrow> Inl (LLMError (''LLM call failed: '' @ errorMessage e)))
      | Inr response \<Rightarrow>
          Inr \<lparr>out_content = parseResponseOutput env response,
               out_finishReason =
                 mapResponseStatus
                   (case api_status response of Some st \<Rightarrow> st | None \<Rightarrow> ''completed''),
               out_usage =
                 \<lparr>inputTokens =
                    (case api_usage response of Some u \<Rightarrow> input_tokens u | None \<Rightarrow> 0),
                  outputTokens =
                    (case api_usage response of Some u \<Rightarrow> output_tokens u | None \<Rightarrow> 0)\<rparr>\<rparr>)"

section \<open>Session (session/session.ts)\<close>

text \<open>
  The mutable state an orchestrator call works on: the session, the number of messages
  created so far (the index of the next fresh identifier and date), and a record of the
  transcript sent with each inference request, in the order of the requests.
\<close>

record World =
  session :: Session
  created :: nat
  inference_log :: "Message list list"

definition pushMessage :: "Env \<Rightarrow> Role \<Rightarrow> MessageContent list \<Rightarrow> World \<Rightarrow> Message \<times> World" where
  "pushMessage env role content w =
     (let message = \<lparr>msg_id = uuid env (created w), msg_role = role, msg_content = content,
                      msg_createdAt = now env (created w)\<rparr>
      in (message,
          w\<lparr>session := (session w)\<lparr>messages := messages (session w) @ [message]\<rparr>,
            created := created w + 1\<rparr>))"

definition addUserMessage :: "Env \<Rightarrow> string \<Rightarrow> World \<Rightarrow> Message \<times> World" where
  "addUserMessage env txt w = pushMessage env User [TextC txt] w"

definition updateSessionStatus :: "SessionStatus \<Rightarrow> World \<Rightarrow> World" where
  "updateSessionStatus st w = w\<lparr>session := (session w)\<lparr>status := st\<rparr>\<rparr>"

definition getLastAssistantMessage :: "Session \<Rightarrow> Message option" where
  "getLastAssistantMessage s = find (\<lambda>m. msg_role m = Assistant) (rev (messages s))"

definition getTextContent :: "Message \<Rightarrow> string" where
  "getTextContent m =
     join ''\<newline>''
       (concat (map (\<lambda>c. case c of TextC t \<Rightarrow> [t] | _ \<Rightarrow> []) (msg_content m)))"

section \<open>Agent orchestrator (agent/agent.ts)\<close>

datatype AgentEvent =
    MessageStart Role
  | TextEvent string
  | TextDone string
  | ToolCallEvent string string json
  | ToolResultEvent string string string "bool option"
  | MessageEnd string
  | StepEvent nat nat
  | ErrorEvent js_error

text \<open>
  The progress callback is called for its effect. The event object it is handed is made
  for the call, but two events carry an object of the loop itself: a \<open>tool_call\<close> event
  carries \<open>call.arguments\<close>, the very object that the transcript holds and that the tool
  is executed with, and the \<open>error\<close> event carries the error that \<open>run\<close> then throws. What
  the loop can observe of a call of the callback is therefore whether it throws
  (\<open>cb_thrown\<close>) and how it leaves the arguments object of a \<open>tool_call\<close> event
  (\<open>cb_arguments\<close>: \<open>None\<close> when it leaves it as it is, and for every event without
  such an object). On the \<open>error\<close> event, \<open>cb_thrown = Some e\<close> stands for a callback that
  throws \<open>e\<close> as well as for one that changes the error it is handed into \<open>e\<close> and
  returns: \<open>run\<close> throws \<open>e\<close> in both cases, and \<open>None\<close> is a callback that returns and
  leaves the error that \<open>run\<close> throws as it is (the event carries that error itself when
  it is an \<open>Error\<close> instance, and a fresh \<open>Error\<close> made from it otherwise). The callback
  is taken not to reach the session or the agent in any other way.
\<close>

record CallbackEffect =
  cb_thrown :: "js_error option"
  cb_arguments :: "json option"

record AgentConfig =
  cfg_model :: string
  cfg_systemPrompt :: string
  maxSteps :: nat
  maxTokens :: "nat option"
  temperature :: "rat option"
  onEvent :: "(AgentEvent \<Rightarrow> CallbackEffect) option"

record Agent =
  llm_call :: "LLMInput \<Rightarrow> js_error + LLMOutput"
  llm_stream :: "LLMInput \<Rightarrow> LLMEvent list"
  registry :: ToolRegistry
  config :: AgentConfig

definition MaxStepsExceededError :: "nat \<Rightarrow> js_error" where
  "MaxStepsExceededError n = AgentError (''Max steps exceeded: '' @ String_nat n) ''MAX_STEPS_EXCEEDED''"

text \<open>\<open>this.config.onEvent?.(event)\<close>\<close>

definition emit :: "Agent \<Rightarrow> AgentEvent \<Rightarrow> js_error option" where
  "emit A ev =
     (case onEvent (config A) of None \<Rightarrow> None | Some callback \<Rightarrow> cb_thrown (callback ev))"

text \<open>A sequence of emissions stops at the first one that throws.\<close>

fun emit_all :: "Agent \<Rightarrow> AgentEvent list \<Rightarrow> js_error option" where
  "emit_all A [] = None"
| "emit_all A (ev # evs) = (case emit A ev of Some e \<Rightarrow> Some e | None \<Rightarrow> emit_all A evs)"

definition llm_input :: "Agent \<Rightarrow> World \<Rightarrow> LLMInput" where
  "llm_input A w =
     \<lparr>in_model = cfg_model (config A),
      in_messages = messages (session w),
      in_systemPrompt = systemPrompt (session w),
      in_tools = toToolDefinitions (registry A),
      in_maxTokens = maxTokens (config A),
      in_temperature = temperature (config A)\<rparr>"

definition log_inference :: "World \<Rightarrow> World" where
  "log_inference w = w\<lparr>inference_log := inference_log w @ [messages (session w)]\<rparr>"

definition tool_calls_of :: "MessageContent list \<Rightarrow> ToolCallContent list" where
  "tool_calls_of content = concat (map (\<lambda>c. case c of ToolCallC call \<Rightarrow> [call] | _ \<Rightarrow> []) content)"

definition text_events :: "MessageContent list \<Rightarrow> AgentEvent list" where
  "text_events content =
     concat (map (\<lambda>c. case c of TextC t \<Rightarrow> [TextEvent t, TextDone t] | _ \<Rightarrow> []) content)"

definition tool_call_event :: "ToolCallContent \<Rightarrow> AgentEvent" where
  "tool_call_event call = ToolCallEvent (tc_id call) (tc_name call) (tc_arguments call)"

definition tool_result_event :: "ToolCallContent list \<Rightarrow> ToolResultContent \<Rightarrow> AgentEvent" where
  "tool_result_event toolCalls res =
     ToolResultEvent (tr_toolCallId res)
       (case find (\<lambda>c. tc_id c = tr_toolCallId res) toolCalls of
          Some call \<Rightarrow> tc_name call
        | None \<Rightarrow> ''unknown'')
       (tr_result res) (tr_isError res)"

definition tool_context :: "World \<Rightarrow> Message \<Rightarrow> ExecutionContext" where
  "tool_context w assistantMessage =
     \<lparr>sessionId = session_id (session w), messageId = msg_id assistantMessage\<rparr>"

text \<open>
  \<open>for (const call of toolCalls) this.emit({type: "tool_call", ..., args: call.arguments})\<close>.
  The calls are the \<open>tool_call\<close> blocks of the content of the assistant message, in their
  order, and each call of the callback can change the arguments of the block it is told
  of: the content as the emissions leave it, and the error of the first emission that
  throws, after which no further event is emitted.
\<close>

definition arguments_after :: "Agent \<Rightarrow> ToolCallContent \<Rightarrow> json" where
  "arguments_after A call =
     (case onEvent (config A) of
        None \<Rightarrow> tc_arguments call
      | Some callback \<Rightarrow>
          (case cb_arguments (callback (tool_call_event call)) of
             None \<Rightarrow> tc_arguments call
           | Some a \<Rightarrow> a))"

fun emit_tool_calls :: "Agent \<Rightarrow> MessageContent list \<Rightarrow> MessageContent list \<times> js_error option" where
  "emit_tool_calls A [] = ([], None)"
| "emit_tool_calls A (ToolCallC call # rest) =
     (case emit A (tool_call_event call) of
        Some e \<Rightarrow> (ToolCallC (call\<lparr>tc_arguments := arguments_after A call\<rparr>) # rest, Some e)
      | None \<Rightarrow>
          (case emit_tool_calls A rest of
             (rest', x) \<Rightarrow> (ToolCallC (call\<lparr>tc_arguments := arguments_after A call\<rparr>) # rest', x)))"
| "emit_tool_calls A (TextC t # rest) =
     (case emit_tool_calls A rest of (rest', x) \<Rightarrow> (TextC t # rest', x))"
| "emit_tool_calls A (ToolResultC res # rest) =
     (case emit_tool_calls A rest of (rest', x) \<Rightarrow> (ToolResultC res # rest', x))"

text \<open>
  The content array of the response is the content of the assistant message that has been
  pushed last: a change of its blocks is a change of the transcript.
\<close>

definition with_last_content :: "MessageContent list \<Rightarrow> World \<Rightarrow> World" where
  "with_last_content content w =
     w\<lparr>session := (session w)
          \<lparr>messages := butlast (messages (session w))
                         @ [(last (messages (session w)))\<lparr>msg_content := content\<rparr>]\<rparr>\<rparr>"

datatype loop_exit = Break | Continue

text \<open>
  \<open>or_throw x w k\<close>: the emissions \<open>x\<close> threw, and the step ends with that error in the
  world \<open>w\<close>, or they returned and the step goes on with \<open>k\<close>.
\<close>

definition or_throw ::
  "js_error option \<Rightarrow> World \<Rightarrow> World \<times> (js_error + 'a) \<Rightarrow> World \<times> (js_error + 'a)" where
  "or_throw x w k = (case x of Some e \<Rightarrow> (w, Inl e) | None \<Rightarrow> k)"

text \<open>
  The tool calls of a step are executed by \<open>new ToolExecutor(this.registry)\<close>, an executor
  without options, and awaited: the step goes on with the outcome of \<open>executeAll\<close>, and
  ends with its error when \<open>executeAll\<close> is rejected.
\<close>

definition run_tools ::
  "Agent \<Rightarrow> Env \<Rightarrow> ToolCallContent list \<Rightarrow> Message \<Rightarrow> World
     \<Rightarrow> (Message \<Rightarrow> ToolResultContent list \<Rightarrow> World \<Rightarrow> World \<times> (js_error + 'a))
     \<Rightarrow> World \<times> (js_error + 'a)" where
  "run_tools A env toolCalls assistantMessage w k =
     (case snd (executeAll (registry A) no_options toolCalls (tool_context w assistantMessage)) of
        Inl e \<Rightarrow> (w, Inl e)
      | Inr results \<Rightarrow>
          (case pushMessage env ToolRole (map ToolResultC results) w of
             (toolMessage, w') \<Rightarrow> k toolMessage results w'))"

text \<open>One iteration of the \<open>while\<close> loop of \<open>run\<close> (lines 81 to 155), \<open>step\<close> already incremented.\<close>

definition run_step :: "Agent \<Rightarrow> Env \<Rightarrow> nat \<Rightarrow> World \<Rightarrow> World \<times> (js_error + loop_exit)" where
  "run_step A env step w =
     or_throw (emit A (StepEvent step (maxSteps (config A)))) w
     (case llm_call A (llm_input A w) of
        Inl e \<Rightarrow> (log_inference w, Inl e)
      | Inr response \<Rightarrow>
          (case pushMessage env Assistant (out_content response) (log_inference w) of
             (assistantMessage, w1) \<Rightarrow>
               or_throw (emit_all A (MessageStart Assistant # text_events (out_content response))) w1
               (let toolCalls = tool_calls_of (out_content response) in
                if toolCalls = []
                then or_throw (emit A (MessageEnd (out_finishReason response))) w1 (w1, Inr Break)
                else
                  (case emit_tool_calls A (out_content response) of
                     (content, x) \<Rightarrow>
                       or_throw x (with_last_content content w1)
                       (run_tools A env (tool_calls_of content) assistantMessage
                          (with_last_content content w1) (\<lambda>toolMessage results w2.
                          or_throw
                            (emit_all A
                               (MessageStart ToolRole
                                  # map (tool_result_event (tool_calls_of content)) results
                                  @ [MessageEnd ''tool_results'']))
                            w2 (w2, Inr Continue)))))))"

text \<open>The \<open>while (step < this.config.maxSteps)\<close> loop: the world and the value of \<open>step\<close> it ends with.\<close>

function run_loop :: "Agent \<Rightarrow> Env \<Rightarrow> nat \<Rightarrow> World \<Rightarrow> World \<times> (js_error + nat)" where
  "run_loop A env step w =
     (if step < maxSteps (config A)
      then (case run_step A env (step + 1) w of
              (w', Inl e) \<Rightarrow> (w', Inl e)
            | (w', Inr Break) \<Rightarrow> (w', Inr (step + 1))
            | (w', Inr Continue) \<Rightarrow> run_loop A env (step + 1) w')
      else (w, Inr step))"
  by pat_completeness auto
termination
  by (relation "measure (\<lambda>(A, env, step, w). maxSteps (config A) - step)") auto

declare run_loop.simps [simp del]

text \<open>The \<open>try\<close> block of \<open>run\<close> after the loop (lines 158 to 163), and its \<open>catch\<close>.\<close>

definition after_loop :: "Agent \<Rightarrow> World \<times> (js_error + nat) \<Rightarrow> World \<times> (js_error + Message list)" where
  "after_loop A r =
     (case r of
        (w, Inl e) \<Rightarrow> (w, Inl e)
      | (w, Inr step) \<Rightarrow>
          if step \<ge> maxSteps (config A) then (w, Inl (MaxStepsExceededError (maxSteps (config A))))
          else (updateSessionStatus Completed w, Inr (messages (session w))))"

definition run_catch :: "Agent \<Rightarrow> World \<times> (js_error + 'a) \<Rightarrow> World \<times> (js_error + 'a)" where
  "run_catch A r =
     (case r of
        (w, Inr v) \<Rightarrow> (w, Inr v)
      | (w, Inl e) \<Rightarrow>
          (case emit A (ErrorEvent (asError e)) of
             Some e' \<Rightarrow> (updateSessionStatus ErrorStatus w, Inl e')
           | None \<Rightarrow> (updateSessionStatus ErrorStatus w, Inl e)))"

definition run :: "Agent \<Rightarrow> Env \<Rightarrow> World \<Rightarrow> string \<Rightarrow> World \<times> (js_error + Message list)" where
  "run A env w userMessage =
     run_catch A
       (after_loop A
          (run_loop A env 0 (updateSessionStatus Running (snd (addUserMessage env userMessage w)))))"

subsection \<open>Streaming mode\<close>

record ToolCallBuffer =
  buf_id :: string
  buf_name :: string
  buf_arguments :: string

text \<open>
  The variables of one step of \<open>stream\<close>: \<open>content\<close>, \<open>toolCalls\<close>, \<open>currentText\<close> and the
  \<open>Map\<close> \<open>toolCallBuffers\<close>.
\<close>

record StreamState =
  st_content :: "MessageContent list"
  st_toolCalls :: "ToolCallContent list"
  currentText :: string
  toolCallBuffers :: "(string \<times> ToolCallBuffer) list"

definition initial_state :: StreamState where
  "initial_state = \<lparr>st_content = [], st_toolCalls = [], currentText = [], toolCallBuffers = []\<rparr>"

text \<open>
  The \<open>switch\<close> on one inference event (lines 205 to 264): the new variables, the events
  yielded, and the error thrown if any.
\<close>

fun on_event :: "Env \<Rightarrow> LLMEvent \<Rightarrow> StreamState \<Rightarrow> StreamState \<times> AgentEvent list \<times> js_error option" where
  "on_event env (TextDelta t) st = (st\<lparr>currentText := currentText st @ t\<rparr>, [TextEvent t], None)"
| "on_event env (ToolCallStart i nm) st =
     (st\<lparr>toolCallBuffers :=
           AList.update i \<lparr>buf_id = i, buf_name = nm, buf_arguments = []\<rparr> (toolCallBuffers st)\<rparr>,
      [], None)"
| "on_event env (ToolCallDelta i fragment) st =
     (case map_of (toolCallBuffers st) i of
        Some buffer \<Rightarrow>
          (st\<lparr>toolCallBuffers :=
                AList.update i (buffer\<lparr>buf_arguments := buf_arguments buffer @ fragment\<rparr>)
                  (toolCallBuffers st)\<rparr>,
           [], None)
      | None \<Rightarrow> (st, [], None))"
| "on_event env (ToolCallEnd i nm arguments) st =
     (let parsed = parse_or_raw env arguments in
      (st\<lparr>st_toolCalls := st_toolCalls st @ [\<lparr>tc_id = i, tc_name = nm, tc_arguments = parsed\<rparr>]\<rparr>,
       [ToolCallEvent i nm parsed], None))"
| "on_event env (Finish reason usage) st =
     (if currentText st \<noteq> []
      then (st\<lparr>st_content := st_content st @ [TextC (currentText st)]\<rparr>,
            [TextDone (currentText st), MessageEnd reason], None)
      else (st, [MessageEnd reason], None))"
| "on_event env (ErrorLLM e) st = (st, [ErrorEvent e], Some e)"

text \<open>The \<open>for await\<close> loop over the events of one inference request.\<close>

fun consume :: "Env \<Rightarrow> LLMEvent list \<Rightarrow> StreamState \<Rightarrow> StreamState \<times> AgentEvent list \<times> js_error option" where
  "consume env [] st = (st, [], None)"
| "consume env (ev # evs) st =
     (case on_event env ev st of
        (st', ys, Some e) \<Rightarrow> (st', ys, Some e)
      | (st', ys, None) \<Rightarrow>
          (case consume env evs st' of (st'', ys', thrown) \<Rightarrow> (st'', ys @ ys', thrown)))"

text \<open>\<open>content.push(...toolCalls)\<close>: the content of the assistant message of the step.\<close>

definition assistant_content :: "StreamState \<Rightarrow> MessageContent list" where
  "assistant_content st = st_content st @ map ToolCallC (st_toolCalls st)"

text \<open>
  One iteration of the \<open>while\<close> loop of \<open>stream\<close> (lines 185 to 305): the world, the events
  yielded during the iteration, and how the iteration ends.
\<close>

definition stream_step ::
  "Agent \<Rightarrow> Env \<Rightarrow> nat \<Rightarrow> World \<Rightarrow> World \<times> AgentEvent list \<times> (js_error + loop_exit)" where
  "stream_step A env step w =
     (case consume env (llm_stream A (llm_input A w)) initial_state of
        (st, ys, Some e) \<Rightarrow>
          (log_inference w,
           [StepEvent step (maxSteps (config A)), MessageStart Assistant] @ ys, Inl e)
      | (st, ys, None) \<Rightarrow>
          (case pushMessage env Assistant (assistant_content st) (log_inference w) of
             (assistantMessage, w1) \<Rightarrow>
               if st_toolCalls st = []
               then (w1, [StepEvent step (maxSteps (config A)), MessageStart Assistant] @ ys,
                     Inr Break)
               else
                 (case snd (executeAll (registry A) no_options (st_toolCalls st)
                              (tool_context w1 assistantMessage)) of
                    Inl e \<Rightarrow>
                      (w1, [StepEvent step (maxSteps (config A)), MessageStart Assistant] @ ys,
                       Inl e)
                  | Inr results \<Rightarrow>
                      (case pushMessage env ToolRole (map ToolResultC results) w1 of
                         (toolMessage, w2) \<Rightarrow>
                           (w2,
                            [StepEvent step (maxSteps (config A)), MessageStart Assistant] @ ys
                              @ MessageStart ToolRole
                                # map (tool_result_event (st_toolCalls st)) results
                              @ [MessageEnd ''tool_results''],
                            Inr Continue)))))"

function stream_loop ::
  "Agent \<Rightarrow> Env \<Rightarrow> nat \<Rightarrow> World \<Rightarrow> World \<times> AgentEvent list \<times> (js_error + nat)" where
  "stream_loop A env step w =
     (if step < maxSteps (config A)
      then (case stream_step A env (step + 1) w of
              (w', ys, Inl e) \<Rightarrow> (w', ys, Inl e)
            | (w', ys, Inr Break) \<Rightarrow> (w', ys, Inr (step + 1))
            | (w', ys, Inr Continue) \<Rightarrow>
                (case stream_loop A env (step + 1) w' of (w'', ys', r) \<Rightarrow> (w'', ys @ ys', r)))
      else (w, [], Inr step))"
  by pat_completeness auto
termination
  by (relation "measure (\<lambda>(A, env, step, w). maxSteps (config A) - step)") auto

declare stream_loop.simps [simp del]

text \<open>
  \<open>stream\<close>, drained by its caller: the world it leaves, every event it yields, and the
  error it throws at the end, if any (lines 308 to 320). The caller is taken to leave the
  events it is given as they are.
\<close>

definition stream :: "Agent \<Rightarrow> Env \<Rightarrow> World \<Rightarrow> string \<Rightarrow> World \<times> AgentEvent list \<times> js_error option" where
  "stream A env w userMessage =
     (case stream_loop A env 0 (updateSessionStatus Running (snd (addUserMessage env userMessage w))) of
        (w', ys, Inl e) \<Rightarrow>
          (updateSessionStatus ErrorStatus w', ys @ [ErrorEvent (asError e)], Some e)
      | (w', ys, Inr step) \<Rightarrow>
          if step \<ge> maxSteps (config A)
          then (updateSessionStatus ErrorStatus w',
                ys @ [ErrorEvent (asError (MaxStepsExceededError (maxSteps (config A))))],
                Some (MaxStepsExceededError (maxSteps (config A))))
          else (updateSessionStatus Completed w', ys, None))"

section \<open>Properties of transcripts and event sequences\<close>

text \<open>
  The identifiers of the tool calls and of the tool results of a message, and the number
  of tool results in a list of messages that carry a given identifier.
\<close>

definition call_ids_of :: "Message \<Rightarrow> string list" where
  "call_ids_of m = map tc_id (tool_calls_of (msg_content m))"

definition result_ids_in :: "MessageContent list \<Rightarrow> string list" where
  "result_ids_in content =
     concat (map (\<lambda>c. case c of ToolResultC res \<Rightarrow> [tr_toolCallId res] | _ \<Rightarrow> []) content)"

definition result_ids_of :: "Message \<Rightarrow> string list" where
  "result_ids_of m = result_ids_in (msg_content m)"

definition call_ids :: "Message list \<Rightarrow> string list" where
  "call_ids ms = concat (map call_ids_of ms)"

definition count_results :: "string \<Rightarrow> Message list \<Rightarrow> nat" where
  "count_results c ms = count_list (concat (map result_ids_of ms)) c"

text \<open>
  Every tool call of the transcript has exactly one tool result with its identifier in
  the messages after its own.
\<close>

fun all_answered :: "Message list \<Rightarrow> bool" where
  "all_answered [] = True"
| "all_answered (m # ms) =
     (list_all (\<lambda>c. count_results c ms = 1) (call_ids_of m) \<and> all_answered ms)"

text \<open>
  Of an executor call. \<open>before_returns opts call ctx t call1\<close>: the pre-execution hook, if
  one is configured, returns after \<open>t\<close> ms and leaves the call object as \<open>call1\<close> (with
  no hook, nothing happens to the call). \<open>in_time opts t\<close>: a tool that settles after \<open>t\<close>
  ms settles before the timer of the configured timeout, if there is one; the timer of a
  timeout above \<open>2^31 - 1\<close> ms fires after 1 ms.
\<close>

definition before_returns ::
  "ExecutorOptions \<Rightarrow> ToolCallContent \<Rightarrow> ExecutionContext \<Rightarrow> nat \<Rightarrow> ToolCallContent \<Rightarrow> bool" where
  "before_returns opts call ctx t call1 =
     (case onBeforeExecute opts of
        None \<Rightarrow> t = 0 \<and> call1 = call
      | Some hook \<Rightarrow> hook call ctx = (t, call1, None))"

definition in_time :: "ExecutorOptions \<Rightarrow> nat \<Rightarrow> bool" where
  "in_time opts t =
     (case timeout opts of
        None \<Rightarrow> True
      | Some ms \<Rightarrow> ms = 0 \<or> (if 2147483647 < ms then t < 1 else t < ms))"









section \<open>Concrete scenarios\<close>

text \<open>
  The inputs of the examples below. \<open>JSON.parse\<close> and \<open>JSON.stringify\<close> are given on the
  strings and values the examples use: \<open>JSON.parse\<close> throws on every other string of the
  examples, and no example reaches \<open>JSON.stringify\<close>.
\<close>

definition scenario_env :: Env where
  "scenario_env =
     \<lparr>JSON_parse = map_of [(''[]'', JArr []), (''[1]'', JArr [JNum 1])],
      JSON_stringify = (\<lambda>j. ''null''),
      uuid = (\<lambda>k. ''id-'' @ String_nat k),
      now = (\<lambda>k. k)\<rparr>"

definition no_usage :: Usage where
  "no_usage = \<lparr>inputTokens = 0, outputTokens = 0\<rparr>"

definition fresh_session :: Session where
  "fresh_session =
     \<lparr>session_id = ''s'', messages = [], systemPrompt = [],
      model_config = \<lparr>mc_model = ''gpt-5-mini'', mc_maxTokens = None, mc_temperature = None\<rparr>,
      status = Idle\<rparr>"

definition fresh_world :: World where
  "fresh_world = \<lparr>session = fresh_session, created = 0, inference_log = []\<rparr>"

text \<open>A tool that answers \<open>ok\<close> after 5 ms, and one that throws \<open>boom\<close>.\<close>

definition echo_tool :: Tool where
  "echo_tool =
     \<lparr>name = ''echo'', description = ''Echo'', parameters = JObj [],
      execute = (\<lambda>arguments ctx. (5, Inr \<lparr>res_output = ''ok'', res_metadata = None, res_error = None\<rparr>))\<rparr>"



definition empty_error_tool :: Tool where
  "empty_error_tool =
     \<lparr>name = ''quiet'', description = ''Empty error'', parameters = JObj [],
      execute = (\<lambda>arguments ctx. (0, Inr \<lparr>res_output = ''out'', res_metadata = None, res_error = Some []\<rparr>))\<rparr>"

definition call_of :: "string \<Rightarrow> string \<Rightarrow> ToolCallContent" where
  "call_of i nm = \<lparr>tc_id = i, tc_name = nm, tc_arguments = JObj []\<rparr>"

definition scenario_ctx :: ExecutionContext where
  "scenario_ctx = \<lparr>sessionId = ''s'', messageId = ''m''\<rparr>"

text \<open>Executor options whose post-execution hook throws.\<close>

definition after_hook_throws :: ExecutorOptions where
  "after_hook_throws =
     \<lparr>timeout = None, onBeforeExecute = None,
      onAfterExecute = Some (\<lambda>call res ctx. (0, (call, res), Some (Thrown (Error ''hook failed''))))\<rparr>"

text \<open>
  Executor options whose post-execution hook returns after it has written \<open>redacted\<close>
  over the result, set \<open>isError\<close> and replaced the call identifier of the block by \<open>other\<close>.
\<close>

definition after_hook_rewrites :: ExecutorOptions where
  "after_hook_rewrites =
     \<lparr>timeout = None, onBeforeExecute = None,
      onAfterExecute =
        Some (\<lambda>call res ctx.
                (0, (call, \<lparr>tr_toolCallId = ''other'', tr_result = ''redacted'',
                            tr_isError = Some True\<rparr>), None))\<rparr>"


definition watching_hooks :: ExecutorOptions where
  "watching_hooks =
     \<lparr>timeout = None,
      onBeforeExecute = Some (\<lambda>call ctx. (1, call, None)),
      onAfterExecute = Some (\<lambda>call res ctx. (2, (call, res), None))\<rparr>"

text \<open>
  A tool that throws, after 2 ms, an object without a prototype: \<open>String\<close> of such an
  object throws a \<open>TypeError\<close>.
\<close>

definition bare_object_tool :: Tool where
  "bare_object_tool =
     \<lparr>name = ''bare'', description = ''Throws an object without a prototype'',
      parameters = JObj [],
      execute = (\<lambda>arguments ctx.
                   (2, Inl (Unconvertible (Error ''Cannot convert object to primitive value''))))\<rparr>"

text \<open>
  An agent whose inference endpoint answers every request with the text \<open>Hello world\<close>, in
  one response or as two text chunks and a finish event.
\<close>

definition greeting_agent :: "nat \<Rightarrow> (AgentEvent \<Rightarrow> CallbackEffect) option \<Rightarrow> Agent" where
  "greeting_agent n callback =
     \<lparr>llm_call = (\<lambda>input. Inr \<lparr>out_content = [TextC ''Hello world''], out_finishReason = ''stop'',
                                out_usage = no_usage\<rparr>),
      llm_stream = (\<lambda>input. [TextDelta ''Hello '', TextDelta ''world'', Finish ''stop'' no_usage]),
      registry = [],
      config = \<lparr>cfg_model = ''gpt-5-mini'', cfg_systemPrompt = [], maxSteps = n,
                 maxTokens = None, temperature = None, onEvent = callback\<rparr>\<rparr>"


text \<open>A callback that throws when it is told of the end of a message, and only then.\<close>

definition end_throwing_callback :: "AgentEvent \<Rightarrow> CallbackEffect" where
  "end_throwing_callback ev =
     \<lparr>cb_thrown = (case ev of MessageEnd reason \<Rightarrow> Some (Error ''callback failed'') | _ \<Rightarrow> None),
      cb_arguments = None\<rparr>"

definition silent_callback :: "AgentEvent \<Rightarrow> CallbackEffect" where
  "silent_callback ev = \<lparr>cb_thrown = None, cb_arguments = None\<rparr>"





text \<open>
  A backend that asks for the tool \<open>echo\<close> with the call identifier \<open>call-a\<close> while the
  transcript has fewer than \<open>n\<close> messages, and answers with a text afterwards.
\<close>

definition calling_backend :: "nat \<Rightarrow> LLMInput \<Rightarrow> js_error + ApiResponse" where
  "calling_backend n input =
     (if length (in_messages input) < n
      then Inr \<lparr>api_output = [FunctionCallItem (Some ''[]'') (Some ''call-a'') None (Some ''echo'')],
                api_status = Some ''completed'', api_usage = None\<rparr>
      else Inr \<lparr>api_output = [MessageItem [OutputText ''done'']],
                api_status = Some ''completed'', api_usage = None\<rparr>)"

definition calling_agent :: "nat \<Rightarrow> Agent" where
  "calling_agent n =
     \<lparr>llm_call = LLMClient_call scenario_env (calling_backend n),
      llm_stream = (\<lambda>input. []),
      registry = register echo_tool [],
      config = \<lparr>cfg_model = ''gpt-5-mini'', cfg_systemPrompt = [], maxSteps = 100,
                 maxTokens = None, temperature = None, onEvent = None\<rparr>\<rparr>"

text \<open>
  The world after a step in which that backend has asked for the tool, and after a step
  in which it has answered with its text.
\<close>

definition asked :: "World \<Rightarrow> World" where
  "asked w =
     snd (pushMessage scenario_env ToolRole
            [ToolResultC \<lparr>tr_toolCallId = ''call-a'', tr_result = ''ok'', tr_isError = Some False\<rparr>]
            (snd (pushMessage scenario_env Assistant
                    [ToolCallC \<lparr>tc_id = ''call-a'', tc_name = ''echo'', tc_arguments = JArr []\<rparr>]
                    (log_inference w))))"

definition answered :: "World \<Rightarrow> World" where
  "answered w = snd (pushMessage scenario_env Assistant [TextC ''done''] (log_inference w))"

text \<open>A world whose session already holds an assistant message with a tool call \<open>call-x\<close>.\<close>

definition world_with_history :: World where
  "world_with_history =
     \<lparr>session = fresh_session
        \<lparr>messages := [\<lparr>msg_id = ''old'', msg_role = Assistant,
                        msg_content = [ToolCallC (call_of ''call-x'' ''echo'')],
                        msg_createdAt = 0\<rparr>]\<rparr>,
      created = 0, inference_log = []\<rparr>"




text \<open>An MCP host whose remote call fails, behind a client that is connected or not.\<close>

definition failing_host :: MCPHost where
  "failing_host =
     \<lparr>host_connect = (3, Inr ()), host_close = (1, Inr ()),
      host_listTools = (2, Inr [\<lparr>mcp_name = ''remote'', mcp_description = None,
                                 mcp_inputSchema = JObj []\<rparr>]),
      host_callTool = (\<lambda>nm arguments. (7, Inl (Error ''remote failure'')))\<rparr>"

definition mcp_client :: "bool \<Rightarrow> MCPClient" where
  "mcp_client up =
     \<lparr>mcp_config = \<lparr>server_name = ''srv'', transport = Stdio, command = Some ''server'',
                     args = None, url = None\<rparr>,
      mcp_host = failing_host, connected = up\<rparr>"

definition remote_definition :: MCPToolDefinition where
  "remote_definition = \<lparr>mcp_name = ''remote'', mcp_description = None, mcp_inputSchema = JObj []\<rparr>"

text \<open>Three tools that take 20 ms, 5 ms and 30 ms to answer.\<close>

definition timed_tool :: "string \<Rightarrow> nat \<Rightarrow> Tool" where
  "timed_tool nm ms =
     \<lparr>name = nm, description = [], parameters = JObj [],
      execute = (\<lambda>arguments ctx. (ms, Inr \<lparr>res_output = nm, res_metadata = None, res_error = None\<rparr>))\<rparr>"

text \<open>Executor options with a timeout of 10 ms.\<close>

definition ten_ms :: ExecutorOptions where
  "ten_ms = \<lparr>timeout = Some 10, onBeforeExecute = None, onAfterExecute = None\<rparr>"

definition timed_registry :: ToolRegistry where
  "timed_registry = registerMany [timed_tool ''A'' 20, timed_tool ''B'' 5, timed_tool ''C'' 30] []"
section \<open>Registry\<close>




lemma count_list_distinct: "distinct xs \<Longrightarrow> x \<in> set xs \<Longrightarrow> count_list xs x = 1"
  by (induction xs) auto





section \<open>Executor\<close>

lemma snd_await_then:
  "snd (await_then p f) = (case snd p of Inl e \<Rightarrow> Inl e | Inr v \<Rightarrow> snd (f v))"
  by (cases p; cases "snd p") (auto split: prod.splits)

lemma snd_try_catch:
  "snd (try_catch p h) = (case snd p of Inl e \<Rightarrow> snd (h e) | Inr v \<Rightarrow> Inr v)"
  by (cases p; cases "snd p") (auto split: prod.splits)

lemma snd_resolved: "snd (resolved v) = Inr v"
  by (simp add: resolved_def)

text \<open>The executor without options, as the agent makes it.\<close>

lemma execute_call_no_options:
  "execute_call r no_options call ctx =
     (case get r (tc_name call) of
        None \<Rightarrow> (0, Inr (errorResult call (''Tool not found: '' @ tc_name call)))
      | Some tool \<Rightarrow>
          (case execute tool (tc_arguments call) ctx of
             (t, Inl (Thrown e)) \<Rightarrow> (t, Inr (errorResult call (errorMessage e)))
           | (t, Inl (Unconvertible e)) \<Rightarrow> (t, Inl e)
           | (t, Inr res) \<Rightarrow> (t, Inr (toolResultContent call res))))"
  by (simp add: execute_call_def runBefore_def runAfter_def executeWithTimeout_def
      no_options_def on_catch_def resolved_def
      split: option.splits prod.splits sum.splits thrown_value.splits)

lemma runBefore_returns:
  "before_returns opts call ctx t call1 \<Longrightarrow> runBefore opts call ctx = (t, call1, None)"
  by (simp add: before_returns_def runBefore_def split: option.splits)

lemma executeWithTimeout_in_time:
  "in_time opts (fst (execute tool (tc_arguments call) ctx)) \<Longrightarrow>
     executeWithTimeout opts tool call ctx = execute tool (tc_arguments call) ctx"
  by (auto simp: in_time_def executeWithTimeout_def Promise_race_timeout_def timeoutPromise_def
      timer_delay_def split: option.splits if_splits)

text \<open>Without hooks the result carries the identifier of the call.\<close>

lemma execute_call_id:
  assumes "onBeforeExecute opts = None" and "onAfterExecute opts = None"
    and "snd (execute_call r opts call ctx) = Inr res"
  shows "tr_toolCallId res = tc_id call"
  using assms
  by (auto simp: execute_call_def runBefore_def runAfter_def on_catch_def resolved_def
      errorResult_def toolResultContent_def
      split: option.splits prod.splits sum.splits thrown_value.splits)

text \<open>\<open>execute\<close> is rejected only with what \<open>String\<close> throws in its \<open>catch\<close> block.\<close>

lemma execute_call_rejected:
  assumes "snd (execute_call r opts call ctx) = Inl e"
  shows "(\<exists>hook. onBeforeExecute opts = Some hook
            \<and> snd (snd (hook call ctx)) = Some (Unconvertible e))
       \<or> (\<exists>tool a. get r (tc_name call) = Some tool
            \<and> snd (execute tool a ctx) = Inl (Unconvertible e))
       \<or> (\<exists>hook c b. onAfterExecute opts = Some hook
            \<and> snd (snd (hook c b ctx)) = Some (Unconvertible e))"
proof (cases "get r (tc_name call)")
  case None
  with assms show ?thesis by (simp add: execute_call_def resolved_def)
next
  case (Some tool)
  obtain t0 call1 x0 where b: "runBefore opts call ctx = (t0, call1, x0)"
    by (cases "runBefore opts call ctx")
  show ?thesis
  proof (cases x0)
    case (Some th)
    with assms \<open>get r (tc_name call) = Some tool\<close> b have "th = Unconvertible e"
      by (cases th) (simp_all add: execute_call_def on_catch_def)
    with Some b have "\<exists>hook. onBeforeExecute opts = Some hook
            \<and> snd (snd (hook call ctx)) = Some (Unconvertible e)"
      by (auto simp: runBefore_def split: option.splits)
    then show ?thesis by blast
  next
    case None
    obtain t1 out where x: "executeWithTimeout opts tool call1 ctx = (t1, out)"
      by (cases "executeWithTimeout opts tool call1 ctx")
    show ?thesis
    proof (cases out)
      case (Inl th)
      with assms \<open>get r (tc_name call) = Some tool\<close> b None x have th: "th = Unconvertible e"
        by (cases th) (simp_all add: execute_call_def on_catch_def)
      have "snd (executeWithTimeout opts tool call1 ctx) = snd (execute tool (tc_arguments call1) ctx)
            \<or> (\<exists>ms. snd (executeWithTimeout opts tool call1 ctx) = snd (timeoutPromise ms :: ToolResult user_promise))"
        by (auto simp: executeWithTimeout_def Promise_race_timeout_def split: option.splits)
      with x Inl th have "snd (execute tool (tc_arguments call1) ctx) = Inl (Unconvertible e)"
        by (auto simp: timeoutPromise_def)
      with \<open>get r (tc_name call) = Some tool\<close> show ?thesis by blast
    next
      case (Inr res)
      obtain t2 call2 block x2 where
        a: "runAfter opts call1 (toolResultContent call1 res) ctx = (t2, (call2, block), x2)"
        by (cases "runAfter opts call1 (toolResultContent call1 res) ctx") auto
      show ?thesis
      proof (cases x2)
        case None2: None
        with assms \<open>get r (tc_name call) = Some tool\<close> b None x Inr a show ?thesis
          by (simp add: execute_call_def)
      next
        case (Some th)
        with assms \<open>get r (tc_name call) = Some tool\<close> b None x Inr a have "th = Unconvertible e"
          by (cases th) (simp_all add: execute_call_def on_catch_def)
        with Some a obtain hook where "onAfterExecute opts = Some hook"
          and "hook call1 (toolResultContent call1 res) ctx = (t2, (call2, block), Some (Unconvertible e))"
          by (auto simp: runAfter_def split: option.splits)
        then have "onAfterExecute opts = Some hook
            \<and> snd (snd (hook call1 (toolResultContent call1 res) ctx)) = Some (Unconvertible e)"
          by simp
        then show ?thesis by blast
      qed
    qed
  qed
qed

text \<open>\<open>Promise.all\<close> is fulfilled exactly when every element is, with the values in order.\<close>

lemma snd_Promise_all_Inr:
  "snd (Promise_all ps) = Inr vs \<longleftrightarrow> map snd ps = map Inr vs"
proof (induction ps arbitrary: vs)
  case Nil
  then show ?case by auto
next
  case (Cons p ps)
  obtain t out where p: "p = (t, out)" by (cases p)
  obtain t' out' where r: "Promise_all ps = (t', out')" by (cases "Promise_all ps")
  show ?case
  proof (cases out)
    case (Inl e)
    with p r show ?thesis by (cases out'; cases vs) auto
  next
    case (Inr v)
    show ?thesis
    proof (cases out')
      case Inl': (Inl e')
      have "\<not> (\<exists>ws. map snd ps = map Inr ws)"
        using Cons.IH r Inl' by (metis Inl_Inr_False snd_conv)
      with p r Inr Inl' show ?thesis by (cases vs) auto
    next
      case Inr': (Inr ws)
      then have "map snd ps = map Inr ws"
        using Cons.IH [of ws] r by simp
      with p r Inr Inr' show ?thesis
        by (cases vs) (auto dest: map_injective simp: inj_on_def)
    qed
  qed
qed

lemma snd_Promise_all_Inl:
  "snd (Promise_all ps) = Inl e \<Longrightarrow> \<exists>p \<in> set ps. snd p = Inl e"
proof (induction ps)
  case Nil
  then show ?case by simp
next
  case (Cons p ps)
  obtain t out where p: "p = (t, out)" by (cases p)
  obtain t' out' where r: "Promise_all ps = (t', out')" by (cases "Promise_all ps")
  from Cons p r show ?case
    by (cases out; cases out') (auto split: if_splits)
qed

lemma executeAll_Inr:
  "snd (executeAll r opts calls ctx) = Inr rs \<longleftrightarrow>
     map (\<lambda>call. snd (execute_call r opts call ctx)) calls = map Inr rs"
  by (simp add: executeAll_def snd_Promise_all_Inr comp_def)

lemma executeAll_ids:
  assumes "snd (executeAll r opts calls ctx) = Inr rs"
    and "onBeforeExecute opts = None" and "onAfterExecute opts = None"
  shows "map tr_toolCallId rs = map tc_id calls"
proof -
  have eq: "map (\<lambda>call. snd (execute_call r opts call ctx)) calls = map Inr rs"
    using assms(1) by (simp add: executeAll_Inr)
  then have len: "length rs = length calls"
    by (metis length_map)
  show ?thesis
  proof (rule nth_equalityI)
    show "length (map tr_toolCallId rs) = length (map tc_id calls)" using len by simp
  next
    fix i assume "i < length (map tr_toolCallId rs)"
    then have i: "i < length rs" "i < length calls" using len by simp_all
    have "snd (execute_call r opts (calls ! i) ctx) = Inr (rs ! i)"
      using eq i by (metis (no_types, lifting) nth_map)
    from execute_call_id [OF assms(2,3) this]
    show "map tr_toolCallId rs ! i = map tc_id calls ! i" using i by simp
  qed
qed

lemma executeAll_ids_no_options:
  "snd (executeAll r no_options calls ctx) = Inr rs \<Longrightarrow> map tr_toolCallId rs = map tc_id calls"
  using executeAll_ids [of r no_options calls ctx rs] by (simp add: no_options_def)




text \<open>
  C3 as stated fails, in two ways. When one of the tools throws an object without a
  prototype, \<open>executeAll\<close> is rejected, after 2 ms, and there is no result array at all.
  When the post-execution hook writes another identifier into the block, the result
  returned for the call \<open>1\<close> carries the identifier \<open>other\<close>.
\<close>

theorem executeAll_rejected_and_renamed:
  "executeAll (registerMany [echo_tool, bare_object_tool] []) no_options
     [call_of ''1'' ''echo'', call_of ''2'' ''bare''] scenario_ctx =
     (2, Inl (Error ''Cannot convert object to primitive value''))
   \<and> executeAll (register echo_tool []) after_hook_rewrites [call_of ''1'' ''echo''] scenario_ctx =
       (5, Inr [\<lparr>tr_toolCallId = ''other'', tr_result = ''redacted'', tr_isError = Some True\<rparr>])"
  by (simp add: executeAll_def execute_call_def runBefore_def runAfter_def
      executeWithTimeout_def on_catch_def no_options_def after_hook_rewrites_def
      get_def register_def echo_tool_def bare_object_tool_def call_of_def)

text \<open>
  C3, amended. Whenever \<open>executeAll\<close> is fulfilled, its result array has one result for
  each call, in the order of the calls: the result at each position is the one \<open>execute\<close>
  gives for the call at that position, whatever the times at which the executions settle,
  and for an executor without hooks it carries the identifier of that call. \<open>executeAll\<close>
  is fulfilled exactly when \<open>execute\<close> is for every call, and is rejected with the error
  of one of the calls otherwise; without hooks it is fulfilled whenever no tool throws a
  value that \<open>String\<close> cannot convert. The awaited promises are taken to settle.
\<close>

theorem executeAll_keeps_order:
  "(\<forall>rs. snd (executeAll r opts calls ctx) = Inr rs \<longrightarrow>
       length rs = length calls
     \<and> map Inr rs = map (\<lambda>call. snd (execute_call r opts call ctx)) calls
     \<and> (onBeforeExecute opts = None \<and> onAfterExecute opts = None \<longrightarrow>
          map tr_toolCallId rs = map tc_id calls))
   \<and> ((\<exists>rs. snd (executeAll r opts calls ctx) = Inr rs) \<longleftrightarrow>
        (\<forall>call \<in> set calls. \<exists>res. snd (execute_call r opts call ctx) = Inr res))
   \<and> (\<forall>e. snd (executeAll r opts calls ctx) = Inl e \<longrightarrow>
        (\<exists>call \<in> set calls. snd (execute_call r opts call ctx) = Inl e))
   \<and> (onBeforeExecute opts = None \<and> onAfterExecute opts = None
        \<and> (\<forall>call \<in> set calls. \<forall>tool a e. get r (tc_name call) = Some tool \<longrightarrow>
              snd (execute tool a ctx) \<noteq> Inl (Unconvertible e)) \<longrightarrow>
        (\<exists>rs. snd (executeAll r opts calls ctx) = Inr rs))"
proof -
  have a: "\<forall>rs. snd (executeAll r opts calls ctx) = Inr rs \<longrightarrow>
       length rs = length calls
     \<and> map Inr rs = map (\<lambda>call. snd (execute_call r opts call ctx)) calls
     \<and> (onBeforeExecute opts = None \<and> onAfterExecute opts = None \<longrightarrow>
          map tr_toolCallId rs = map tc_id calls)"
  proof (intro allI impI)
    fix rs assume h: "snd (executeAll r opts calls ctx) = Inr rs"
    then have eq: "map (\<lambda>call. snd (execute_call r opts call ctx)) calls = map Inr rs"
      by (simp add: executeAll_Inr)
    then have "length rs = length calls"
      by (metis length_map)
    with eq executeAll_ids [OF h]
    show "length rs = length calls
     \<and> map Inr rs = map (\<lambda>call. snd (execute_call r opts call ctx)) calls
     \<and> (onBeforeExecute opts = None \<and> onAfterExecute opts = None \<longrightarrow>
          map tr_toolCallId rs = map tc_id calls)"
      by simp
  qed
  have b: "(\<exists>rs. snd (executeAll r opts calls ctx) = Inr rs) \<longleftrightarrow>
        (\<forall>call \<in> set calls. \<exists>res. snd (execute_call r opts call ctx) = Inr res)"
  proof
    assume "\<exists>rs. snd (executeAll r opts calls ctx) = Inr rs"
    then obtain rs where "map (\<lambda>call. snd (execute_call r opts call ctx)) calls = map Inr rs"
      by (auto simp: executeAll_Inr)
    then show "\<forall>call \<in> set calls. \<exists>res. snd (execute_call r opts call ctx) = Inr res"
    proof (induction calls arbitrary: rs)
      case Nil
      then show ?case by simp
    next
      case (Cons c cs)
      then show ?case by (cases rs) auto
    qed
  next
    assume "\<forall>call \<in> set calls. \<exists>res. snd (execute_call r opts call ctx) = Inr res"
    then have "\<exists>rs. map (\<lambda>call. snd (execute_call r opts call ctx)) calls = map Inr rs"
    proof (induction calls)
      case Nil
      then show ?case by simp
    next
      case (Cons c cs)
      then obtain res rs where "snd (execute_call r opts c ctx) = Inr res"
        and "map (\<lambda>call. snd (execute_call r opts call ctx)) cs = map Inr rs"
        by auto
      then have "map (\<lambda>call. snd (execute_call r opts call ctx)) (c # cs) = map Inr (res # rs)"
        by simp
      then show ?case by blast
    qed
    then show "\<exists>rs. snd (executeAll r opts calls ctx) = Inr rs"
      by (simp add: executeAll_Inr)
  qed
  have c: "\<forall>e. snd (executeAll r opts calls ctx) = Inl e \<longrightarrow>
        (\<exists>call \<in> set calls. snd (execute_call r opts call ctx) = Inl e)"
    using snd_Promise_all_Inl [of "map (\<lambda>call. execute_call r opts call ctx) calls"]
    by (auto simp: executeAll_def)
  have d: "onBeforeExecute opts = None \<and> onAfterExecute opts = None
        \<and> (\<forall>call \<in> set calls. \<forall>tool a e. get r (tc_name call) = Some tool \<longrightarrow>
              snd (execute tool a ctx) \<noteq> Inl (Unconvertible e)) \<longrightarrow>
        (\<exists>rs. snd (executeAll r opts calls ctx) = Inr rs)"
  proof
    assume h: "onBeforeExecute opts = None \<and> onAfterExecute opts = None
        \<and> (\<forall>call \<in> set calls. \<forall>tool a e. get r (tc_name call) = Some tool \<longrightarrow>
              snd (execute tool a ctx) \<noteq> Inl (Unconvertible e))"
    have "\<forall>call \<in> set calls. \<exists>res. snd (execute_call r opts call ctx) = Inr res"
    proof
      fix call assume m: "call \<in> set calls"
      show "\<exists>res. snd (execute_call r opts call ctx) = Inr res"
      proof (cases "snd (execute_call r opts call ctx)")
        case (Inr res)
        then show ?thesis by blast
      next
        case (Inl e)
        from execute_call_rejected [OF this] h m show ?thesis by auto
      qed
    qed
    with b show "\<exists>rs. snd (executeAll r opts calls ctx) = Inr rs" by simp
  qed
  from a b c d show ?thesis by blast
qed

theorem executeAll_keeps_order_witness:
  "executeAll timed_registry no_options
     [call_of ''1'' ''A'', call_of ''2'' ''B'', call_of ''3'' ''C''] scenario_ctx =
   (30, Inr [\<lparr>tr_toolCallId = ''1'', tr_result = ''A'', tr_isError = Some False\<rparr>,
             \<lparr>tr_toolCallId = ''2'', tr_result = ''B'', tr_isError = Some False\<rparr>,
             \<lparr>tr_toolCallId = ''3'', tr_result = ''C'', tr_isError = Some False\<rparr>])
   \<and> map tr_toolCallId
       [\<lparr>tr_toolCallId = ''1'', tr_result = ''A'', tr_isError = Some False\<rparr>,
        \<lparr>tr_toolCallId = ''2'', tr_result = ''B'', tr_isError = Some False\<rparr>,
        \<lparr>tr_toolCallId = ''3'', tr_result = ''C'', tr_isError = Some False\<rparr>] =
     map tc_id [call_of ''1'' ''A'', call_of ''2'' ''B'', call_of ''3'' ''C'']"
proof -
  have e: "executeAll timed_registry no_options
     [call_of ''1'' ''A'', call_of ''2'' ''B'', call_of ''3'' ''C''] scenario_ctx =
   (30, Inr [\<lparr>tr_toolCallId = ''1'', tr_result = ''A'', tr_isError = Some False\<rparr>,
             \<lparr>tr_toolCallId = ''2'', tr_result = ''B'', tr_isError = Some False\<rparr>,
             \<lparr>tr_toolCallId = ''3'', tr_result = ''C'', tr_isError = Some False\<rparr>])"
    by (simp add: executeAll_def execute_call_no_options toolResultContent_def
        timed_registry_def timed_tool_def register_def get_def call_of_def)
  have n: "onBeforeExecute no_options = None \<and> onAfterExecute no_options = None"
    by (simp add: no_options_def)
  from executeAll_keeps_order [of timed_registry no_options
      "[call_of ''1'' ''A'', call_of ''2'' ''B'', call_of ''3'' ''C'']" scenario_ctx] e n
  have "map tr_toolCallId
       [\<lparr>tr_toolCallId = ''1'', tr_result = ''A'', tr_isError = Some False\<rparr>,
        \<lparr>tr_toolCallId = ''2'', tr_result = ''B'', tr_isError = Some False\<rparr>,
        \<lparr>tr_toolCallId = ''3'', tr_result = ''C'', tr_isError = Some False\<rparr>] =
     map tc_id [call_of ''1'' ''A'', call_of ''2'' ''B'', call_of ''3'' ''C'']"
    by simp
  with e show ?thesis by simp
qed

text \<open>
  C10 as stated fails, in three ways. A tool found in the registry whose executor
  resolves to \<open>{output: "ok"}\<close> does not give a result block with \<open>ok\<close> and
  \<open>isError = false\<close> when the post-execution hook throws: the block returned carries the
  hook's message. Nor does it when the hook returns after it has written over the block
  it was handed, which is the block that \<open>execute\<close> returns. And a tool whose executor
  resolves after 20 ms gives the error block of the timeout when the timeout is 10 ms.
\<close>

theorem after_hook_replaces_result:
  "get (register echo_tool []) (tc_name (call_of ''c1'' ''echo'')) = Some echo_tool
   \<and> execute echo_tool (tc_arguments (call_of ''c1'' ''echo'')) scenario_ctx =
       (5, Inr \<lparr>res_output = ''ok'', res_metadata = None, res_error = None\<rparr>)
   \<and> snd (execute_call (register echo_tool []) after_hook_throws (call_of ''c1'' ''echo'') scenario_ctx) =
       Inr \<lparr>tr_toolCallId = ''c1'', tr_result = ''hook failed'', tr_isError = Some True\<rparr>
   \<and> snd (execute_call (register echo_tool []) after_hook_rewrites (call_of ''c1'' ''echo'') scenario_ctx) =
       Inr \<lparr>tr_toolCallId = ''other'', tr_result = ''redacted'', tr_isError = Some True\<rparr>
   \<and> get timed_registry (tc_name (call_of ''c2'' ''A'')) = Some (timed_tool ''A'' 20)
   \<and> execute (timed_tool ''A'' 20) (tc_arguments (call_of ''c2'' ''A'')) scenario_ctx =
       (20, Inr \<lparr>res_output = ''A'', res_metadata = None, res_error = None\<rparr>)
   \<and> snd (execute_call timed_registry ten_ms (call_of ''c2'' ''A'') scenario_ctx) =
       Inr \<lparr>tr_toolCallId = ''c2'', tr_result = ''Tool execution timed out after 10ms'',
            tr_isError = Some True\<rparr>"
  by (simp add: execute_call_def get_def register_def echo_tool_def call_of_def
      after_hook_throws_def after_hook_rewrites_def runBefore_def runAfter_def
      executeWithTimeout_def on_catch_def errorResult_def Promise_race_timeout_def
      timeoutPromise_def timer_delay_def ten_ms_def timed_registry_def timed_tool_def
      String_nat.simps digit_char_def)

text \<open>
  C10, amended. For every tool found in the registry whose execution resolves to a
  ToolResult before the timer of the timeout fires, if one is set, and after the
  pre-execution hook has returned, if one is configured: the tool_result block that
  \<open>execute\<close> builds has \<open>result\<close> equal to the \<open>error\<close> field when that field is defined
  and to the \<open>output\<close> field otherwise, and \<open>isError\<close> true exactly when the \<open>error\<close> field
  is a non-empty string; a ToolResult with the error \<open>""\<close> gives the result \<open>""\<close> with
  \<open>isError = false\<close>, and its output is discarded. \<open>execute\<close> returns this block when no
  post-execution hook is configured; otherwise it hands this block to the hook and, when
  the hook returns, returns the block as the hook leaves it, which is the block built
  when the hook does not modify it.
\<close>

theorem execute_maps_tool_result:
  assumes "get r (tc_name call) = Some tool"
    and "before_returns opts call ctx t0 call1"
    and "execute tool (tc_arguments call1) ctx = (t1, Inr res)"
    and "in_time opts t1"
  shows "(onAfterExecute opts = None \<longrightarrow>
            execute_call r opts call ctx =
              (t0 + t1,
               Inr \<lparr>tr_toolCallId = tc_id call1,
                    tr_result = (case res_error res of Some e \<Rightarrow> e | None \<Rightarrow> res_output res),
                    tr_isError = Some (case res_error res of Some e \<Rightarrow> e \<noteq> [] | None \<Rightarrow> False)\<rparr>))
       \<and> (onAfterExecute opts = None \<and> res_error res = Some [] \<longrightarrow>
            snd (execute_call r opts call ctx) =
              Inr \<lparr>tr_toolCallId = tc_id call1, tr_result = [], tr_isError = Some False\<rparr>)
       \<and> (\<forall>hook t2 call2 block.
            onAfterExecute opts = Some hook
            \<and> hook call1
                 \<lparr>tr_toolCallId = tc_id call1,
                  tr_result = (case res_error res of Some e \<Rightarrow> e | None \<Rightarrow> res_output res),
                  tr_isError = Some (case res_error res of Some e \<Rightarrow> e \<noteq> [] | None \<Rightarrow> False)\<rparr>
                 ctx = (t2, (call2, block), None) \<longrightarrow>
            execute_call r opts call ctx = (t0 + t1 + t2, Inr block))"
proof -
  have b: "runBefore opts call ctx = (t0, call1, None)"
    using assms(2) by (rule runBefore_returns)
  have x: "executeWithTimeout opts tool call1 ctx = (t1, Inr res)"
    using executeWithTimeout_in_time [of opts tool call1 ctx] assms(3,4) by simp
  have n: "onAfterExecute opts = None \<longrightarrow>
            execute_call r opts call ctx =
              (t0 + t1,
               Inr \<lparr>tr_toolCallId = tc_id call1,
                    tr_result = (case res_error res of Some e \<Rightarrow> e | None \<Rightarrow> res_output res),
                    tr_isError = Some (case res_error res of Some e \<Rightarrow> e \<noteq> [] | None \<Rightarrow> False)\<rparr>)"
    by (simp add: execute_call_def assms(1) b x runAfter_def toolResultContent_def)
  then have e: "onAfterExecute opts = None \<and> res_error res = Some [] \<longrightarrow>
            snd (execute_call r opts call ctx) =
              Inr \<lparr>tr_toolCallId = tc_id call1, tr_result = [], tr_isError = Some False\<rparr>"
    by simp
  have h: "\<forall>hook t2 call2 block.
            onAfterExecute opts = Some hook
            \<and> hook call1
                 \<lparr>tr_toolCallId = tc_id call1,
                  tr_result = (case res_error res of Some e \<Rightarrow> e | None \<Rightarrow> res_output res),
                  tr_isError = Some (case res_error res of Some e \<Rightarrow> e \<noteq> [] | None \<Rightarrow> False)\<rparr>
                 ctx = (t2, (call2, block), None) \<longrightarrow>
            execute_call r opts call ctx = (t0 + t1 + t2, Inr block)"
    by (simp add: execute_call_def assms(1) b x runAfter_def toolResultContent_def)
  from n e h show ?thesis by blast
qed

theorem execute_maps_tool_result_witness:
  "snd (execute_call (register empty_error_tool []) no_options (call_of ''c1'' ''quiet'') scenario_ctx) =
     Inr \<lparr>tr_toolCallId = ''c1'', tr_result = [], tr_isError = Some False\<rparr>
   \<and> execute_call (register echo_tool []) watching_hooks (call_of ''c2'' ''echo'') scenario_ctx =
       (8, Inr \<lparr>tr_toolCallId = ''c2'', tr_result = ''ok'', tr_isError = Some False\<rparr>)"
proof -
  have g: "get (register empty_error_tool []) (tc_name (call_of ''c1'' ''quiet'')) = Some empty_error_tool"
    by (simp add: get_def register_def empty_error_tool_def call_of_def)
  have b: "before_returns no_options (call_of ''c1'' ''quiet'') scenario_ctx 0 (call_of ''c1'' ''quiet'')"
    by (simp add: before_returns_def no_options_def)
  have x: "execute empty_error_tool (tc_arguments (call_of ''c1'' ''quiet'')) scenario_ctx =
             (0, Inr \<lparr>res_output = ''out'', res_metadata = None, res_error = Some []\<rparr>)"
    by (simp add: empty_error_tool_def)
  have i: "in_time no_options 0"
    by (simp add: in_time_def no_options_def)
  have a: "onAfterExecute no_options = None"
    by (simp add: no_options_def)
  from execute_maps_tool_result [OF g b x i, THEN conjunct2, THEN conjunct1] a
  have r1: "snd (execute_call (register empty_error_tool []) no_options (call_of ''c1'' ''quiet'') scenario_ctx) =
     Inr \<lparr>tr_toolCallId = tc_id (call_of ''c1'' ''quiet''), tr_result = [], tr_isError = Some False\<rparr>"
    by simp
  have g2: "get (register echo_tool []) (tc_name (call_of ''c2'' ''echo'')) = Some echo_tool"
    by (simp add: get_def register_def echo_tool_def call_of_def)
  have b2: "before_returns watching_hooks (call_of ''c2'' ''echo'') scenario_ctx 1 (call_of ''c2'' ''echo'')"
    by (simp add: before_returns_def watching_hooks_def)
  have x2: "execute echo_tool (tc_arguments (call_of ''c2'' ''echo'')) scenario_ctx =
             (5, Inr \<lparr>res_output = ''ok'', res_metadata = None, res_error = None\<rparr>)"
    by (simp add: echo_tool_def)
  have i2: "in_time watching_hooks 5"
    by (simp add: in_time_def watching_hooks_def)
  have a2: "onAfterExecute watching_hooks = Some (\<lambda>call res ctx. (2, (call, res), None))"
    by (simp add: watching_hooks_def)
  from execute_maps_tool_result [OF g2 b2 x2 i2, THEN conjunct2, THEN conjunct2, rule_format,
      of "\<lambda>call res ctx. (2, (call, res), None)" 2 "call_of ''c2'' ''echo''"
         "\<lparr>tr_toolCallId = ''c2'', tr_result = ''ok'', tr_isError = Some False\<rparr>"] a2
  have r2: "execute_call (register echo_tool []) watching_hooks (call_of ''c2'' ''echo'') scenario_ctx =
       (1 + 5 + 2, Inr \<lparr>tr_toolCallId = ''c2'', tr_result = ''ok'', tr_isError = Some False\<rparr>)"
    by (simp add: call_of_def)
  from r1 r2 show ?thesis
    by (simp add: call_of_def)
qed

text \<open>
  The timeout at work: with a timeout of 10 ms the tool that takes 20 ms gives the timeout
  error after 10 ms, and the tool that takes 5 ms gives its own result.
\<close>

lemma timeout_wins_race:
  "execute_call timed_registry ten_ms (call_of ''1'' ''A'') scenario_ctx =
     (10, Inr \<lparr>tr_toolCallId = ''1'', tr_result = ''Tool execution timed out after 10ms'',
               tr_isError = Some True\<rparr>)
   \<and> execute_call timed_registry ten_ms (call_of ''2'' ''B'') scenario_ctx =
       (5, Inr \<lparr>tr_toolCallId = ''2'', tr_result = ''B'', tr_isError = Some False\<rparr>)"
  by (simp add: execute_call_def executeWithTimeout_def Promise_race_timeout_def
      timeoutPromise_def timer_delay_def runBefore_def runAfter_def toolResultContent_def
      errorResult_def on_catch_def ten_ms_def timed_registry_def timed_tool_def register_def
      get_def call_of_def String_nat.simps digit_char_def)

section \<open>External tool source adapter\<close>

lemma snd_callTool:
  "snd (callTool env c nm a) =
     (if \<not> connected c then Inl (Error ''MCP client is not connected'')
      else (case snd (host_callTool (mcp_host c) nm a) of
              Inl e \<Rightarrow> Inr \<lparr>res_output = [], res_metadata = None, res_error = Some (errorMessage e)\<rparr>
            | Inr res \<Rightarrow> Inr (remoteToolResult env res)))"
  by (simp add: callTool_def rejected_def snd_try_catch snd_await_then snd_resolved
      split: sum.splits)

lemma snd_as_thrown:
  "snd (as_thrown p) = (case snd p of Inl e \<Rightarrow> Inl (Thrown e) | Inr v \<Rightarrow> Inr v)"
  by (cases p; cases "snd p") (simp_all add: as_thrown_def)

text \<open>
  C8 as stated fails: the tool adapted from a remote host throws out of its \<open>execute\<close>
  function when the client is not connected.
\<close>

theorem adapted_tool_throws_when_disconnected:
  "execute (adaptTool scenario_env (mcp_client False) remote_definition) (JObj []) scenario_ctx =
     (0, Inl (Thrown (Error ''MCP client is not connected'')))"
  by (simp add: adaptTool_def callTool_def mcp_client_def rejected_def as_thrown_def)

text \<open>
  C8, amended. While the client is connected, every invocation of an adapted tool resolves
  to a ToolResult: a failure of the remote call gives a ToolResult with an empty output
  and the error's message in its \<open>error\<close> field, and a remote result flagged as an error
  gives a ToolResult whose \<open>error\<close> field is its output. When the client is not connected
  the \<open>execute\<close> function of the adapted tool throws \<open>MCP client is not connected\<close>, and it
  is \<open>ToolExecutor.execute\<close> that turns the error into a tool_result with
  \<open>isError = true\<close>.
\<close>

theorem adapted_tool_failures:
  "(connected c \<longrightarrow>
      (\<exists>res. snd (execute (adaptTool env c d) a ctx) = Inr res)
      \<and> (\<forall>e. snd (host_callTool (mcp_host c) (mcp_name d) a) = Inl e \<longrightarrow>
             snd (execute (adaptTool env c d) a ctx) =
               Inr \<lparr>res_output = [], res_metadata = None, res_error = Some (errorMessage e)\<rparr>)
      \<and> (\<forall>res. snd (host_callTool (mcp_host c) (mcp_name d) a) = Inr res
                \<and> mcp_isError res = Some True \<longrightarrow>
             snd (execute (adaptTool env c d) a ctx) =
               Inr \<lparr>res_output = content_text env (mcp_content res), res_metadata = None,
                    res_error = Some (content_text env (mcp_content res))\<rparr>))
   \<and> (\<not> connected c \<longrightarrow>
        execute (adaptTool env c d) a ctx = (0, Inl (Thrown (Error ''MCP client is not connected'')))
        \<and> (get r (tc_name call) = Some (adaptTool env c d) \<and> tc_arguments call = a \<longrightarrow>
             snd (execute_call r no_options call ctx) =
               Inr \<lparr>tr_toolCallId = tc_id call, tr_result = ''MCP client is not connected'',
                    tr_isError = Some True\<rparr>))"
proof -
  have ex: "execute (adaptTool env c d) a ctx = as_thrown (callTool env c (mcp_name d) a)"
    by (simp add: adaptTool_def)
  have up: "connected c \<longrightarrow>
      (\<exists>res. snd (execute (adaptTool env c d) a ctx) = Inr res)
      \<and> (\<forall>e. snd (host_callTool (mcp_host c) (mcp_name d) a) = Inl e \<longrightarrow>
             snd (execute (adaptTool env c d) a ctx) =
               Inr \<lparr>res_output = [], res_metadata = None, res_error = Some (errorMessage e)\<rparr>)
      \<and> (\<forall>res. snd (host_callTool (mcp_host c) (mcp_name d) a) = Inr res
                \<and> mcp_isError res = Some True \<longrightarrow>
             snd (execute (adaptTool env c d) a ctx) =
               Inr \<lparr>res_output = content_text env (mcp_content res), res_metadata = None,
                    res_error = Some (content_text env (mcp_content res))\<rparr>)"
    unfolding ex
    by (auto simp: snd_as_thrown snd_callTool remoteToolResult_def Let_def split: sum.splits)
  have down1: "\<not> connected c \<longrightarrow>
        execute (adaptTool env c d) a ctx = (0, Inl (Thrown (Error ''MCP client is not connected'')))"
    unfolding ex by (simp add: callTool_def rejected_def as_thrown_def)
  have down2: "\<not> connected c \<longrightarrow>
         (get r (tc_name call) = Some (adaptTool env c d) \<and> tc_arguments call = a \<longrightarrow>
             snd (execute_call r no_options call ctx) =
               Inr \<lparr>tr_toolCallId = tc_id call, tr_result = ''MCP client is not connected'',
                    tr_isError = Some True\<rparr>)"
    using down1
    by (auto simp: execute_call_no_options errorResult_def)
  from up down1 down2 show ?thesis by blast
qed

theorem adapted_tool_failures_witness:
  "snd (execute (adaptTool scenario_env (mcp_client True) remote_definition) (JObj []) scenario_ctx) =
     Inr \<lparr>res_output = [], res_metadata = None, res_error = Some ''remote failure''\<rparr>
   \<and> snd (execute_call (register (adaptTool scenario_env (mcp_client False) remote_definition) [])
            no_options (call_of ''c1'' ''remote'') scenario_ctx) =
       Inr \<lparr>tr_toolCallId = ''c1'', tr_result = ''MCP client is not connected'',
            tr_isError = Some True\<rparr>"
proof -
  have c1: "connected (mcp_client True)" and c2: "\<not> connected (mcp_client False)"
    by (simp_all add: mcp_client_def)
  have f: "snd (host_callTool (mcp_host (mcp_client True)) (mcp_name remote_definition) (JObj []))
             = Inl (Error ''remote failure'')"
    by (simp add: mcp_client_def failing_host_def)
  have g: "get (register (adaptTool scenario_env (mcp_client False) remote_definition) [])
             (tc_name (call_of ''c1'' ''remote''))
           = Some (adaptTool scenario_env (mcp_client False) remote_definition)"
    by (simp add: get_def register_def adaptTool_def remote_definition_def call_of_def)
  have a: "tc_arguments (call_of ''c1'' ''remote'') = JObj []"
    by (simp add: call_of_def)
  from adapted_tool_failures [of "mcp_client True" scenario_env remote_definition "JObj []" scenario_ctx]
    adapted_tool_failures [of "mcp_client False" scenario_env remote_definition "JObj []" scenario_ctx
      "register (adaptTool scenario_env (mcp_client False) remote_definition) []"
      "call_of ''c1'' ''remote''"]
    c1 c2 f g a
  show ?thesis by (simp add: call_of_def)
qed

section \<open>Agent orchestrator: batch mode\<close>

lemma emit_all_quiet: "\<forall>ev. emit A ev = None \<Longrightarrow> emit_all A evs = None"
  by (induction evs) simp_all

text \<open>
  Emissions that neither throw nor change the arguments they are handed leave the content
  of the assistant message as it is.
\<close>

lemma emit_tool_calls_quiet:
  assumes "\<forall>ev. emit A ev = None" and "\<forall>call. arguments_after A call = tc_arguments call"
  shows "emit_tool_calls A content = (content, None)"
proof (induction content)
  case Nil
  then show ?case by simp
next
  case (Cons c content)
  then show ?case using assms by (cases c) simp_all
qed

lemma no_callback_quiet:
  assumes "onEvent (config A) = None"
  shows "\<forall>ev. emit A ev = None" and "\<forall>call. arguments_after A call = tc_arguments call"
  using assms by (simp_all add: emit_def arguments_after_def)

lemma with_last_content_pushed:
  "pushMessage env role content w = (a, w1) \<Longrightarrow> with_last_content content w1 = w1"
  by (auto simp: pushMessage_def with_last_content_def Let_def)

text \<open>
  A step whose response has no tool calls, when no emission throws. No step emits the
  \<open>error\<close> event, so that what the callback does with that event does not matter here.
\<close>

lemma emit_all_quiet_on:
  "\<forall>ev \<in> set evs. emit A ev = None \<Longrightarrow> emit_all A evs = None"
  by (induction evs) simp_all

lemma text_events_no_error: "ev \<in> set (text_events content) \<Longrightarrow> ev \<noteq> ErrorEvent e"
  by (auto simp: text_events_def split: MessageContent.splits)

lemma run_step_break_progress:
  assumes "\<forall>ev. (\<forall>e. ev \<noteq> ErrorEvent e) \<longrightarrow> emit A ev = None"
    and "llm_call A (llm_input A w) = Inr response"
    and "tool_calls_of (out_content response) = []"
  shows "run_step A env k w =
           (snd (pushMessage env Assistant (out_content response) (log_inference w)), Inr Break)"
proof -
  have "\<forall>ev \<in> set (MessageStart Assistant # text_events (out_content response)). emit A ev = None"
    using assms(1) text_events_no_error by fastforce
  then have "emit_all A (MessageStart Assistant # text_events (out_content response)) = None"
    by (rule emit_all_quiet_on)
  moreover have "emit A (StepEvent k (maxSteps (config A))) = None"
    and "emit A (MessageEnd (out_finishReason response)) = None"
    using assms(1) by simp_all
  ultimately show ?thesis
    using assms(2,3)
    by (simp add: run_step_def or_throw_def del: emit_all.simps split: prod.splits)
qed

lemma run_step_break:
  assumes "\<forall>ev. emit A ev = None"
    and "llm_call A (llm_input A w) = Inr response"
    and "tool_calls_of (out_content response) = []"
  shows "run_step A env k w =
           (snd (pushMessage env Assistant (out_content response) (log_inference w)), Inr Break)"
  using assms by (simp add: run_step_break_progress)

lemma fst_run_catch:
  "fst (run_catch A (w, Inl e)) = updateSessionStatus ErrorStatus w"
  by (simp add: run_catch_def split: option.splits)

lemma llm_input_status [simp]:
  "llm_input A (updateSessionStatus st w) = llm_input A w"
  by (simp add: llm_input_def updateSessionStatus_def)

text \<open>
  C1. The claim is right and the code is not: when the step that ends the turn is the
  last step the budget allows, the loop leaves by \<open>break\<close> with \<open>step = maxSteps\<close>, and the
  test \<open>step >= maxSteps\<close> after the loop throws \<open>MaxStepsExceeded\<close>. With \<open>maxSteps = 1\<close>
  and a first response without tool calls, \<open>run\<close> fails and leaves the session in the
  status \<open>error\<close>, whatever the session, the tools and the text of the response.
\<close>

theorem run_fails_when_last_step_ends_turn:
  assumes "maxSteps (config A) = 1"
    and "\<forall>ev. emit A ev = None"
    and "llm_call A (llm_input A (snd (addUserMessage env userMessage w))) = Inr response"
    and "tool_calls_of (out_content response) = []"
  shows "snd (run A env w userMessage) = Inl (MaxStepsExceededError 1)
       \<and> status (session (fst (run A env w userMessage))) = ErrorStatus
       \<and> messages (session (fst (run A env w userMessage))) =
           messages (session w)
             @ [fst (addUserMessage env userMessage w),
                fst (pushMessage env Assistant (out_content response)
                       (snd (addUserMessage env userMessage w)))]"
proof -
  let ?w1 = "updateSessionStatus Running (snd (addUserMessage env userMessage w))"
  let ?w2 = "snd (pushMessage env Assistant (out_content response) (log_inference ?w1))"
  have call: "llm_call A (llm_input A ?w1) = Inr response"
    using assms(3) by simp
  have step: "run_step A env k ?w1 = (?w2, Inr Break)" for k
    using run_step_break [OF assms(2) call assms(4)] .
  have loop: "run_loop A env 0 ?w1 = (?w2, Inr 1)"
    by (subst run_loop.simps) (simp add: assms(1) step)
  have r: "run A env w userMessage =
             (updateSessionStatus ErrorStatus ?w2, Inl (MaxStepsExceededError 1))"
    by (simp add: run_def loop after_loop_def run_catch_def assms(1) assms(2))
  show ?thesis
    by (simp add: r updateSessionStatus_def pushMessage_def addUserMessage_def
        log_inference_def Let_def)
qed

theorem run_fails_when_last_step_ends_turn_witness:
  "snd (run (greeting_agent 1 None) scenario_env fresh_world ''hi'') =
     Inl (AgentError ''Max steps exceeded: 1'' ''MAX_STEPS_EXCEEDED'')
   \<and> status (session (fst (run (greeting_agent 1 None) scenario_env fresh_world ''hi''))) = ErrorStatus
   \<and> map msg_content (messages (session (fst (run (greeting_agent 1 None) scenario_env fresh_world ''hi'')))) =
       [[TextC ''hi''], [TextC ''Hello world'']]"
proof -
  have m: "maxSteps (config (greeting_agent 1 None)) = 1"
    by (simp add: greeting_agent_def)
  have q: "\<forall>ev. emit (greeting_agent 1 None) ev = None"
    by (simp add: emit_def greeting_agent_def)
  have c: "llm_call (greeting_agent 1 None)
             (llm_input (greeting_agent 1 None) (snd (addUserMessage scenario_env ''hi'' fresh_world))) =
           Inr \<lparr>out_content = [TextC ''Hello world''], out_finishReason = ''stop'',
                out_usage = no_usage\<rparr>"
    by (simp add: greeting_agent_def)
  have t: "tool_calls_of (out_content \<lparr>out_content = [TextC ''Hello world''],
             out_finishReason = ''stop'', out_usage = no_usage\<rparr>) = []"
    by (simp add: tool_calls_of_def)
  from run_fails_when_last_step_ends_turn [OF m q c t]
  show ?thesis
    by (simp add: MaxStepsExceededError_def String_nat.simps digit_char_def
        addUserMessage_def pushMessage_def fresh_world_def fresh_session_def Let_def)
qed

text \<open>
  In general: whenever the loop is left with \<open>step = maxSteps\<close>, by \<open>break\<close> in the last
  step as well as by the loop condition, \<open>run\<close> fails with \<open>MaxStepsExceeded\<close>.
\<close>

lemma run_fails_at_budget:
  assumes "run_loop A env 0 (updateSessionStatus Running (snd (addUserMessage env userMessage w))) =
             (W, Inr (maxSteps (config A)))"
    and "\<forall>ev. emit A ev = None"
  shows "run A env w userMessage =
           (updateSessionStatus ErrorStatus W, Inl (MaxStepsExceededError (maxSteps (config A))))"
  using assms by (simp add: run_def after_loop_def run_catch_def)

text \<open>With a budget of two steps the same turn completes.\<close>

lemma run_completes_with_spare_step:
  "snd (run (greeting_agent 2 None) scenario_env fresh_world ''hi'') =
     Inr (messages (session (fst (run (greeting_agent 2 None) scenario_env fresh_world ''hi''))))
   \<and> status (session (fst (run (greeting_agent 2 None) scenario_env fresh_world ''hi''))) = Completed
   \<and> map msg_content (messages (session (fst (run (greeting_agent 2 None) scenario_env fresh_world ''hi'')))) =
       [[TextC ''hi''], [TextC ''Hello world'']]"
  by (simp add: run_def run_catch_def after_loop_def run_loop.simps run_step_def or_throw_def
      emit_def addUserMessage_def pushMessage_def updateSessionStatus_def log_inference_def
      llm_input_def tool_calls_of_def text_events_def greeting_agent_def fresh_world_def
      fresh_session_def Let_def)






section \<open>Agent orchestrator: streaming mode against batch mode\<close>

lemma consume_two_deltas:
  "consume env [TextDelta t1, TextDelta t2, Finish reason u] initial_state =
     (if t1 @ t2 \<noteq> []
      then (initial_state\<lparr>st_content := [TextC (t1 @ t2)], currentText := t1 @ t2\<rparr>,
            [TextEvent t1, TextEvent t2, TextDone (t1 @ t2), MessageEnd reason], None)
      else (initial_state, [TextEvent t1, TextEvent t2, MessageEnd reason], None))"
  by (simp add: initial_state_def)

lemma stream_step_two_deltas:
  assumes "llm_stream A (llm_input A w) = [TextDelta t1, TextDelta t2, Finish reason u]"
  shows "fst (stream_step A env k w) =
           snd (pushMessage env Assistant (if t1 @ t2 \<noteq> [] then [TextC (t1 @ t2)] else [])
                  (log_inference w))
       \<and> snd (snd (stream_step A env k w)) = Inr Break"
  using assms
  by (simp add: stream_step_def consume_two_deltas assistant_content_def initial_state_def
      split: prod.splits)

lemma status_updateSessionStatus: "status (session (updateSessionStatus st w)) = st"
  by (simp add: updateSessionStatus_def)

lemma messages_updateSessionStatus:
  "messages (session (updateSessionStatus st w)) = messages (session w)"
  by (simp add: updateSessionStatus_def)

lemma pushed_text:
  "map (\<lambda>m. (msg_role m, getTextContent m))
     (messages (session (snd (pushMessage env Assistant (if t \<noteq> [] then [TextC t] else []) w)))) =
   map (\<lambda>m. (msg_role m, getTextContent m))
     (messages (session (snd (pushMessage env Assistant [TextC t] w))))"
  by (simp add: pushMessage_def Let_def getTextContent_def)

lemma last_assistant_by_text:
  assumes "map (\<lambda>m. (msg_role m, getTextContent m)) (messages s) =
           map (\<lambda>m. (msg_role m, getTextContent m)) (messages s')"
  shows "map_option getTextContent (getLastAssistantMessage s) =
         map_option getTextContent (getLastAssistantMessage s')"
proof -
  have "map_option getTextContent (find (\<lambda>m. msg_role m = Assistant) xs) =
        map_option snd (find (\<lambda>p. fst p = Assistant) (map (\<lambda>m. (msg_role m, getTextContent m)) xs))"
    for xs
    by (induction xs) simp_all
  then show ?thesis
    using assms by (simp add: getLastAssistantMessage_def rev_map [symmetric])
qed

text \<open>
  C5 as stated fails: for the turn of the claim (two text chunks and a finish event with
  the reason \<open>stop\<close>, against one response with the concatenated text), an agent whose
  progress callback throws on the \<open>message_end\<close> event appends the same assistant text in
  both modes, but \<open>run\<close>, which calls the callback inside its \<open>try\<close> block, leaves the
  session in the status \<open>error\<close>, and \<open>stream\<close>, which calls no callback, leaves it in the
  status \<open>completed\<close>.
\<close>

theorem throwing_callback_separates_modes:
  "status (session (fst (run (greeting_agent 2 (Some end_throwing_callback)) scenario_env fresh_world ''hi''))) = ErrorStatus
   \<and> status (session (fst (stream (greeting_agent 2 (Some end_throwing_callback)) scenario_env fresh_world ''hi''))) = Completed
   \<and> map_option getTextContent (getLastAssistantMessage (session (fst (run (greeting_agent 2 (Some end_throwing_callback)) scenario_env fresh_world ''hi'')))) = Some ''Hello world''
   \<and> map_option getTextContent (getLastAssistantMessage (session (fst (stream (greeting_agent 2 (Some end_throwing_callback)) scenario_env fresh_world ''hi'')))) = Some ''Hello world''"
  by (simp add: run_def run_catch_def after_loop_def run_loop.simps run_step_def or_throw_def
      emit_def stream_def stream_loop.simps stream_step_def assistant_content_def
      initial_state_def addUserMessage_def pushMessage_def updateSessionStatus_def
      log_inference_def llm_input_def greeting_agent_def fresh_world_def fresh_session_def
      end_throwing_callback_def getLastAssistantMessage_def getTextContent_def
      tool_calls_of_def text_events_def Let_def)

text \<open>
  C5, amended. Batch mode and streaming mode produce equivalent end state when the progress
  callback, if one is configured, does not throw: for a turn in which the streamed event
  sequence is two \<open>text_delta\<close> events and a \<open>finish\<close> with the reason \<open>stop\<close>, while batch
  mode receives the response whose content is the concatenated text, \<open>run\<close> and \<open>stream\<close>
  leave the session in the same status, with transcripts that agree in the role and the
  text content of every message; in particular the last assistant messages have equal
  text content. What the callback does with the \<open>error\<close> event does not matter: when \<open>run\<close>
  emits it, the status is \<open>error\<close> already.
\<close>

theorem batch_and_stream_agree:
  assumes "\<forall>ev. (\<forall>e. ev \<noteq> ErrorEvent e) \<longrightarrow> emit A ev = None"
    and "llm_stream A (llm_input A (snd (addUserMessage env userMessage w))) =
           [TextDelta t1, TextDelta t2, Finish ''stop'' u]"
    and "llm_call A (llm_input A (snd (addUserMessage env userMessage w))) =
           Inr \<lparr>out_content = [TextC (t1 @ t2)], out_finishReason = ''stop'', out_usage = u\<rparr>"
  shows "status (session (fst (run A env w userMessage))) =
           status (session (fst (stream A env w userMessage)))
       \<and> map (\<lambda>m. (msg_role m, getTextContent m)) (messages (session (fst (run A env w userMessage)))) =
           map (\<lambda>m. (msg_role m, getTextContent m)) (messages (session (fst (stream A env w userMessage))))
       \<and> map_option getTextContent (getLastAssistantMessage (session (fst (run A env w userMessage)))) =
           map_option getTextContent (getLastAssistantMessage (session (fst (stream A env w userMessage))))"
proof -
  let ?w1 = "updateSessionStatus Running (snd (addUserMessage env userMessage w))"
  let ?wr = "snd (pushMessage env Assistant [TextC (t1 @ t2)] (log_inference ?w1))"
  let ?ws = "snd (pushMessage env Assistant (if t1 @ t2 \<noteq> [] then [TextC (t1 @ t2)] else [])
                    (log_inference ?w1))"
  let ?view = "\<lambda>w. map (\<lambda>m. (msg_role m, getTextContent m)) (messages (session w))"
  have call: "llm_call A (llm_input A ?w1) =
                Inr \<lparr>out_content = [TextC (t1 @ t2)], out_finishReason = ''stop'', out_usage = u\<rparr>"
    using assms(3) by simp
  have evs: "llm_stream A (llm_input A ?w1) = [TextDelta t1, TextDelta t2, Finish ''stop'' u]"
    using assms(2) by simp
  have rstep: "run_step A env k ?w1 = (?wr, Inr Break)" for k
    using run_step_break_progress [OF assms(1) call] by (simp add: tool_calls_of_def)
  have sstep: "fst (stream_step A env k ?w1) = ?ws \<and> snd (snd (stream_step A env k ?w1)) = Inr Break"
    for k
    using stream_step_two_deltas [OF evs] .
  have same: "?view ?wr = ?view ?ws"
    using pushed_text [of env "t1 @ t2" "log_inference ?w1"] by simp
  have st: "status (session ?wr) = status (session ?ws)"
    by (simp add: pushMessage_def Let_def)
  have both:
    "status (session (fst (run A env w userMessage))) =
       status (session (fst (stream A env w userMessage)))
     \<and> ?view (fst (run A env w userMessage)) = ?view (fst (stream A env w userMessage))"
  proof (cases "maxSteps (config A) = 0")
    case True
    have "run_loop A env 0 ?w1 = (?w1, Inr 0)"
      by (subst run_loop.simps) (simp add: True)
    moreover have "stream_loop A env 0 ?w1 = (?w1, [], Inr 0)"
      by (subst stream_loop.simps) (simp add: True)
    ultimately show ?thesis
      by (simp add: run_def stream_def after_loop_def fst_run_catch True
          status_updateSessionStatus messages_updateSessionStatus)
  next
    case False
    have r: "run_loop A env 0 ?w1 = (?wr, Inr 1)"
      by (subst run_loop.simps) (simp add: False rstep)
    obtain ys where step: "stream_step A env (Suc 0) ?w1 = (?ws, ys, Inr Break)"
      using sstep [of "Suc 0"] by (cases "stream_step A env (Suc 0) ?w1") auto
    have s: "stream_loop A env 0 ?w1 = (?ws, ys, Inr 1)"
      by (subst stream_loop.simps) (simp add: False step)
    show ?thesis
    proof (cases "1 \<ge> maxSteps (config A)")
      case True
      have "fst (run A env w userMessage) = updateSessionStatus ErrorStatus ?wr"
        using True by (simp add: run_def r after_loop_def fst_run_catch)
      moreover have "fst (stream A env w userMessage) = updateSessionStatus ErrorStatus ?ws"
        using True by (simp add: stream_def s)
      ultimately show ?thesis
        using same by (simp add: status_updateSessionStatus messages_updateSessionStatus)
    next
      case False
      have "fst (run A env w userMessage) = updateSessionStatus Completed ?wr"
        using False by (simp add: run_def r after_loop_def run_catch_def)
      moreover have "fst (stream A env w userMessage) = updateSessionStatus Completed ?ws"
        using False by (simp add: stream_def s)
      ultimately show ?thesis
        using same by (simp add: status_updateSessionStatus messages_updateSessionStatus)
    qed
  qed
  then show ?thesis
    using last_assistant_by_text by blast
qed

theorem batch_and_stream_agree_witness:
  "status (session (fst (run (greeting_agent 100 None) scenario_env fresh_world ''hi''))) =
     status (session (fst (stream (greeting_agent 100 None) scenario_env fresh_world ''hi'')))
   \<and> map_option getTextContent
       (getLastAssistantMessage (session (fst (run (greeting_agent 100 None) scenario_env fresh_world ''hi'')))) =
     map_option getTextContent
       (getLastAssistantMessage (session (fst (stream (greeting_agent 100 None) scenario_env fresh_world ''hi''))))"
proof -
  have q: "\<forall>ev. (\<forall>e. ev \<noteq> ErrorEvent e) \<longrightarrow> emit (greeting_agent 100 None) ev = None"
    by (simp add: emit_def greeting_agent_def)
  have s: "llm_stream (greeting_agent 100 None)
             (llm_input (greeting_agent 100 None) (snd (addUserMessage scenario_env ''hi'' fresh_world))) =
           [TextDelta ''Hello '', TextDelta ''world'', Finish ''stop'' no_usage]"
    by (simp add: greeting_agent_def)
  have c: "llm_call (greeting_agent 100 None)
             (llm_input (greeting_agent 100 None) (snd (addUserMessage scenario_env ''hi'' fresh_world))) =
           Inr \<lparr>out_content = [TextC (''Hello '' @ ''world'')], out_finishReason = ''stop'',
                out_usage = no_usage\<rparr>"
    by (simp add: greeting_agent_def)
  from batch_and_stream_agree [OF q s c]
  show ?thesis by simp
qed

section \<open>Agent orchestrator: the streaming state machine\<close>





















section \<open>Agent orchestrator: tool calls and tool results in the transcript\<close>

lemma count_results_append:
  "count_results c (ms @ ns) = count_results c ms + count_results c ns"
  by (simp add: count_results_def)

lemma all_answered_append:
  assumes "all_answered ms" and "\<forall>c \<in> set (call_ids ms). count_results c ns = 0"
    and "all_answered ns"
  shows "all_answered (ms @ ns)"
  using assms
proof (induction ms)
  case Nil
  then show ?case by simp
next
  case (Cons m ms)
  then have "all_answered (ms @ ns)"
    by (simp add: call_ids_def)
  moreover have "list_all (\<lambda>c. count_results c (ms @ ns) = 1) (call_ids_of m)"
    using Cons.prems by (simp add: list_all_iff count_results_append call_ids_def)
  ultimately show ?case by simp
qed

lemma result_ids_in_Nil: "result_ids_in [] = []"
  by (simp add: result_ids_in_def)

lemma result_ids_in_Cons:
  "result_ids_in (c # cs) =
     (case c of ToolResultC res \<Rightarrow> [tr_toolCallId res] | _ \<Rightarrow> []) @ result_ids_in cs"
  by (simp add: result_ids_in_def)

lemma result_ids_in_append: "result_ids_in (xs @ ys) = result_ids_in xs @ result_ids_in ys"
  by (simp add: result_ids_in_def)

lemma result_ids_in_results: "result_ids_in (map ToolResultC results) = map tr_toolCallId results"
  by (induction results) (simp_all add: result_ids_in_Nil result_ids_in_Cons)

lemma tool_calls_of_results: "tool_calls_of (map ToolResultC results) = []"
  by (induction results) (simp_all add: tool_calls_of_def)

text \<open>
  The emission of the \<open>tool_call\<close> events can change the arguments of the tool calls of
  the content, and nothing else: the blocks keep their kinds, their order and their
  identifiers.
\<close>

lemma emit_tool_calls_ids:
  "map tc_id (tool_calls_of (fst (emit_tool_calls A content))) = map tc_id (tool_calls_of content)"
proof (induction content)
  case Nil
  then show ?case by simp
next
  case (Cons c content)
  then show ?case
    by (cases c) (auto simp: tool_calls_of_def split: prod.splits option.splits)
qed

lemma emit_tool_calls_result_ids:
  "result_ids_in (fst (emit_tool_calls A content)) = result_ids_in content"
proof (induction content)
  case Nil
  then show ?case by simp
next
  case (Cons c content)
  then show ?case
    by (cases c) (auto simp: result_ids_in_Cons split: prod.splits option.splits)
qed

lemma with_last_content_messages:
  assumes "messages (session w1) = ms @ [a]"
  shows "messages (session (with_last_content content w1)) = ms @ [a\<lparr>msg_content := content\<rparr>]"
    and "inference_log (with_last_content content w1) = inference_log w1"
    and "tool_context (with_last_content content w1) m = tool_context w1 m"
    and "created (with_last_content content w1) = created w1"
  using assms by (simp_all add: with_last_content_def tool_context_def)

text \<open>The adapter makes text blocks and tool calls only: no tool result comes from a response.\<close>

lemma parseOutputItem_no_results: "result_ids_in (parseOutputItem env item) = []"
proof (cases item)
  case (MessageItem parts)
  have "result_ids_in
          (concat (map (\<lambda>part. case part of OutputText t \<Rightarrow> [TextC t] | OtherPart \<Rightarrow> []) parts)) = []"
  proof (induction parts)
    case Nil
    then show ?case by (simp add: result_ids_in_Nil)
  next
    case (Cons part parts)
    then show ?case
      by (cases part) (simp_all add: result_ids_in_Cons result_ids_in_Nil)
  qed
  with MessageItem show ?thesis by simp
next
  case (FunctionCallItem a c i n)
  then show ?thesis by (simp add: result_ids_in_Cons result_ids_in_Nil)
next
  case OtherOutputItem
  then show ?thesis by (simp add: result_ids_in_Nil)
qed

lemma parseResponseOutput_no_results: "result_ids_in (parseResponseOutput env response) = []"
proof -
  have "result_ids_in (concat (map (parseOutputItem env) xs)) = []" for xs
  proof (induction xs)
    case Nil
    then show ?case by (simp add: result_ids_in_Nil)
  next
    case (Cons x xs)
    then show ?case by (simp add: result_ids_in_append parseOutputItem_no_results)
  qed
  then show ?thesis by (simp add: parseResponseOutput_def)
qed

lemma LLMClient_call_no_results:
  assumes "LLMClient_call env backend input = Inr out"
  shows "result_ids_in (out_content out) = []"
proof (cases "backend input")
  case (Inl e)
  with assms show ?thesis
    by (cases e) (simp_all add: LLMClient_call_def split: if_splits)
next
  case (Inr response)
  with assms have "out_content out = parseResponseOutput env response"
    by (auto simp: LLMClient_call_def)
  then show ?thesis by (simp add: parseResponseOutput_no_results)
qed

lemma or_throw_Inr:
  "or_throw x w k = (w', Inr v) \<Longrightarrow> x = None \<and> k = (w', Inr v)"
  by (cases x) (simp_all add: or_throw_def)

text \<open>What a step that does not throw has done.\<close>

lemma run_step_Inr:
  assumes "run_step A env k w = (w', Inr x)"
  shows "\<exists>response a w1.
           llm_call A (llm_input A w) = Inr response
         \<and> pushMessage env Assistant (out_content response) (log_inference w) = (a, w1)
         \<and> (x = Break \<longrightarrow> tool_calls_of (out_content response) = [] \<and> w' = w1)
         \<and> (x = Continue \<longrightarrow>
              (\<exists>results.
                 snd (executeAll (registry A) no_options
                        (tool_calls_of (fst (emit_tool_calls A (out_content response))))
                        (tool_context w1 a)) = Inr results
               \<and> w' = snd (pushMessage env ToolRole (map ToolResultC results)
                             (with_last_content (fst (emit_tool_calls A (out_content response))) w1))))"
proof -
  from or_throw_Inr [OF assms [unfolded run_step_def]]
  have body: "(case llm_call A (llm_input A w) of
        Inl e \<Rightarrow> (log_inference w, Inl e)
      | Inr response \<Rightarrow>
          (case pushMessage env Assistant (out_content response) (log_inference w) of
             (assistantMessage, w1) \<Rightarrow>
               or_throw (emit_all A (MessageStart Assistant # text_events (out_content response))) w1
               (let toolCalls = tool_calls_of (out_content response) in
                if toolCalls = []
                then or_throw (emit A (MessageEnd (out_finishReason response))) w1 (w1, Inr Break)
                else
                  (case emit_tool_calls A (out_content response) of
                     (content, x) \<Rightarrow>
                       or_throw x (with_last_content content w1)
                       (run_tools A env (tool_calls_of content) assistantMessage
                          (with_last_content content w1) (\<lambda>toolMessage results w2.
                          or_throw
                            (emit_all A
                               (MessageStart ToolRole
                                  # map (tool_result_event (tool_calls_of content)) results
                                  @ [MessageEnd ''tool_results'']))
                            w2 (w2, Inr Continue))))))) = (w', Inr x)"
    by simp
  then obtain response where resp: "llm_call A (llm_input A w) = Inr response"
    by (cases "llm_call A (llm_input A w)") simp_all
  obtain a w1 where push: "pushMessage env Assistant (out_content response) (log_inference w) = (a, w1)"
    by (cases "pushMessage env Assistant (out_content response) (log_inference w)")
  obtain content thrown where em: "emit_tool_calls A (out_content response) = (content, thrown)"
    by (cases "emit_tool_calls A (out_content response)")
  let ?calls = "tool_calls_of (out_content response)"
  let ?W = "with_last_content content w1"
  from body resp push em
  have inner: "(if ?calls = []
                then or_throw (emit A (MessageEnd (out_finishReason response))) w1 (w1, Inr Break)
                else
                  or_throw thrown ?W
                  (run_tools A env (tool_calls_of content) a ?W (\<lambda>toolMessage results w2.
                     or_throw
                       (emit_all A
                          (MessageStart ToolRole # map (tool_result_event (tool_calls_of content)) results
                             @ [MessageEnd ''tool_results'']))
                       w2 (w2, Inr Continue)))) = (w', Inr x)"
    using or_throw_Inr by (fastforce simp: Let_def)
  show ?thesis
  proof (cases "?calls = []")
    case True
    with inner have "w' = w1" and "x = Break"
      using or_throw_Inr by fastforce+
    with resp push True show ?thesis by simp
  next
    case False
    with inner have
      tools: "run_tools A env (tool_calls_of content) a ?W (\<lambda>toolMessage results w2.
                     or_throw
                       (emit_all A
                          (MessageStart ToolRole # map (tool_result_event (tool_calls_of content)) results
                             @ [MessageEnd ''tool_results'']))
                       w2 (w2, Inr Continue)) = (w', Inr x)"
      using or_throw_Inr by fastforce
    have ctx: "tool_context ?W a = tool_context w1 a"
      by (simp add: with_last_content_def tool_context_def)
    from tools obtain results where
      res: "snd (executeAll (registry A) no_options (tool_calls_of content) (tool_context w1 a)) = Inr results"
      by (cases "snd (executeAll (registry A) no_options (tool_calls_of content) (tool_context w1 a))")
        (simp_all add: run_tools_def ctx)
    obtain t w2 where push2: "pushMessage env ToolRole (map ToolResultC results) ?W = (t, w2)"
      by (cases "pushMessage env ToolRole (map ToolResultC results) ?W")
    from tools res push2 have "w' = w2" and "x = Continue"
      using or_throw_Inr by (fastforce simp: run_tools_def ctx)+
    with resp push False res push2 em show ?thesis by auto
  qed
qed

lemma pushMessage_messages:
  "pushMessage env role content w = (m, w') \<Longrightarrow>
     messages (session w') = messages (session w) @ [m]
   \<and> msg_content m = content \<and> msg_role m = role
   \<and> inference_log w' = inference_log w"
  by (auto simp: pushMessage_def Let_def)

text \<open>
  The messages a step that does not throw appends: an assistant message without tool
  calls, or an assistant message and the tool message with one result for each of its
  calls, in their order. The transcript it sent to the inference endpoint is logged.
\<close>

lemma run_step_appends:
  assumes "run_step A env k w = (w', Inr x)"
    and "llm_call A = LLMClient_call env' backend"
  shows "inference_log w' = inference_log w @ [messages (session w)]
       \<and> (x = Break \<longrightarrow>
            (\<exists>a. messages (session w') = messages (session w) @ [a]
                \<and> call_ids_of a = [] \<and> result_ids_of a = []))
       \<and> (x = Continue \<longrightarrow>
            (\<exists>a t. messages (session w') = messages (session w) @ [a, t]
                  \<and> result_ids_of a = [] \<and> call_ids_of t = []
                  \<and> result_ids_of t = call_ids_of a))"
proof -
  from run_step_Inr [OF assms(1)] obtain response a w1 where
    resp: "llm_call A (llm_input A w) = Inr response"
    and push: "pushMessage env Assistant (out_content response) (log_inference w) = (a, w1)"
    and brk: "x = Break \<longrightarrow> tool_calls_of (out_content response) = [] \<and> w' = w1"
    and cont: "x = Continue \<longrightarrow>
              (\<exists>results.
                 snd (executeAll (registry A) no_options
                        (tool_calls_of (fst (emit_tool_calls A (out_content response))))
                        (tool_context w1 a)) = Inr results
               \<and> w' = snd (pushMessage env ToolRole (map ToolResultC results)
                             (with_last_content (fst (emit_tool_calls A (out_content response))) w1)))"
    by blast
  have nores: "result_ids_in (out_content response) = []"
    using resp assms(2) LLMClient_call_no_results by metis
  from pushMessage_messages [OF push]
  have m1: "messages (session w1) = messages (session w) @ [a]"
    and c1: "msg_content a = out_content response"
    and l1: "inference_log w1 = inference_log w @ [messages (session w)]"
    by (simp_all add: log_inference_def)
  have ra: "result_ids_of a = []"
    by (simp add: result_ids_of_def c1 nores)
  show ?thesis
  proof (cases x)
    case Break
    with brk have "w' = w1" and "call_ids_of a = []"
      by (simp_all add: call_ids_of_def c1)
    with Break m1 l1 ra show ?thesis by simp
  next
    case Continue
    let ?content = "fst (emit_tool_calls A (out_content response))"
    let ?W = "with_last_content ?content w1"
    let ?a = "a\<lparr>msg_content := ?content\<rparr>"
    from Continue cont obtain results where
      res: "snd (executeAll (registry A) no_options (tool_calls_of ?content)
                        (tool_context w1 a)) = Inr results"
      and w': "w' = snd (pushMessage env ToolRole (map ToolResultC results) ?W)"
      by blast
    obtain t where push2: "pushMessage env ToolRole (map ToolResultC results) ?W = (t, w')"
      using w' by (cases "pushMessage env ToolRole (map ToolResultC results) ?W") simp
    from pushMessage_messages [OF push2]
    have m2: "messages (session w') = messages (session ?W) @ [t]"
      and c2: "msg_content t = map ToolResultC results"
      and l2: "inference_log w' = inference_log ?W"
      by simp_all
    have mW: "messages (session ?W) = messages (session w) @ [?a]"
      and lW: "inference_log ?W = inference_log w1"
      using with_last_content_messages [OF m1] by simp_all
    have ra': "result_ids_of ?a = []"
      by (simp add: result_ids_of_def emit_tool_calls_result_ids nores)
    have "result_ids_of t = call_ids_of ?a"
      using executeAll_ids_no_options [OF res]
      by (simp add: result_ids_of_def call_ids_of_def c2 result_ids_in_results)
    moreover have "call_ids_of t = []"
      by (simp add: call_ids_of_def c2 tool_calls_of_results)
    ultimately show ?thesis
      using Continue m2 mW l1 l2 lW ra' by simp
  qed
qed

lemma run_loop_extends:
  assumes "run_loop A env k w = (w', Inr n)"
    and "llm_call A = LLMClient_call env' backend"
  shows "\<exists>suffix. messages (session w') = messages (session w) @ suffix"
  using assms
proof (induction A env k w rule: run_loop.induct)
  case (1 A env step w)
  show ?case
  proof (cases "step < maxSteps (config A)")
    case False
    with "1.prems"(1) have "w' = w"
      by (subst (asm) run_loop.simps) simp
    then show ?thesis by simp
  next
    case True
    obtain w1 out where r: "run_step A env (Suc step) w = (w1, out)"
      by (cases "run_step A env (Suc step) w")
    show ?thesis
    proof (cases out)
      case (Inl e)
      with True r "1.prems"(1) show ?thesis
        by (subst (asm) run_loop.simps) simp
    next
      case (Inr x)
      from run_step_appends [OF r [unfolded Inr] "1.prems"(2)]
      have ext: "\<exists>suffix. messages (session w1) = messages (session w) @ suffix"
        by (cases x) auto
      show ?thesis
      proof (cases x)
        case Break
        with True r Inr "1.prems"(1) have "w' = w1"
          by (subst (asm) run_loop.simps) simp
        with ext show ?thesis by simp
      next
        case Continue
        with True r Inr "1.prems"(1) have rec: "run_loop A env (Suc step) w1 = (w', Inr n)"
          by (subst (asm) run_loop.simps) simp
        have "\<exists>suffix. messages (session w') = messages (session w1) @ suffix"
          using "1.IH" [of w1 out x] True r Inr Continue rec "1.prems"(2) by simp
        with ext show ?thesis by auto
      qed
    qed
  qed
qed

lemma count_results_pair:
  "count_results c [a, t] = count_list (result_ids_of a @ result_ids_of t) c"
  by (simp add: count_results_def)

lemma count_results_single: "count_results c [a] = count_list (result_ids_of a) c"
  by (simp add: count_results_def)

lemma count_list_absent: "c \<notin> set xs \<Longrightarrow> count_list xs c = 0"
  by (induction xs) auto

text \<open>
  The loop keeps every tool call answered, if the tool-call identifiers of the transcript
  it ends with are distinct; every transcript it sends to the inference endpoint has
  every tool call answered.
\<close>

lemma run_loop_answered:
  assumes "run_loop A env k w = (w', Inr n)"
    and "llm_call A = LLMClient_call env' backend"
    and "all_answered (messages (session w))"
    and "distinct (call_ids (messages (session w')))"
  shows "all_answered (messages (session w'))
       \<and> (\<exists>new. inference_log w' = inference_log w @ new \<and> list_all all_answered new)"
  using assms
proof (induction A env k w rule: run_loop.induct)
  case (1 A env step w)
  show ?case
  proof (cases "step < maxSteps (config A)")
    case False
    with "1.prems"(1) have "w' = w"
      by (subst (asm) run_loop.simps) simp
    with "1.prems"(3) show ?thesis by simp
  next
    case True
    obtain w1 out where r: "run_step A env (Suc step) w = (w1, out)"
      by (cases "run_step A env (Suc step) w")
    show ?thesis
    proof (cases out)
      case (Inl e)
      with True r "1.prems"(1) show ?thesis
        by (subst (asm) run_loop.simps) simp
    next
      case (Inr x)
      note app = run_step_appends [OF r [unfolded Inr] "1.prems"(2)]
      then have log1: "inference_log w1 = inference_log w @ [messages (session w)]"
        by simp
      show ?thesis
      proof (cases x)
        case Break
        with True r Inr "1.prems"(1) have w': "w' = w1"
          by (subst (asm) run_loop.simps) simp
        from app Break obtain a where
          m: "messages (session w1) = messages (session w) @ [a]"
          and ca: "call_ids_of a = []" and ra: "result_ids_of a = []"
          by auto
        have "all_answered (messages (session w) @ [a])"
          using "1.prems"(3) by (rule all_answered_append) (simp_all add: count_results_single ra ca)
        with w' m log1 "1.prems"(3) show ?thesis by simp
      next
        case Continue
        with True r Inr "1.prems"(1) have rec: "run_loop A env (Suc step) w1 = (w', Inr n)"
          by (subst (asm) run_loop.simps) simp
        from app Continue obtain a t where
          m: "messages (session w1) = messages (session w) @ [a, t]"
          and ra: "result_ids_of a = []" and ct: "call_ids_of t = []"
          and rt: "result_ids_of t = call_ids_of a"
          by auto
        obtain suffix where suf: "messages (session w') = messages (session w1) @ suffix"
          using run_loop_extends [OF rec "1.prems"(2)] by blast
        have "call_ids (messages (session w')) =
                (call_ids (messages (session w)) @ call_ids_of a) @ (call_ids_of t @ call_ids suffix)"
          by (simp add: suf m call_ids_def)
        then have d: "distinct (call_ids (messages (session w)) @ call_ids_of a)"
          using "1.prems"(4) by (metis distinct_append)
        have old: "\<forall>c \<in> set (call_ids (messages (session w))). count_results c [a, t] = 0"
        proof
          fix c assume "c \<in> set (call_ids (messages (session w)))"
          then have "c \<notin> set (call_ids_of a)"
            using d by auto
          then show "count_results c [a, t] = 0"
            by (simp add: count_results_pair ra rt count_list_absent)
        qed
        have new: "all_answered [a, t]"
          using d by (simp add: list_all_iff count_results_single rt ct count_list_distinct)
        have inv: "all_answered (messages (session w1))"
          unfolding m using "1.prems"(3) old new by (rule all_answered_append)
        have "all_answered (messages (session w'))
              \<and> (\<exists>new. inference_log w' = inference_log w1 @ new \<and> list_all all_answered new)"
          using "1.IH" [of w1 out x] True r Inr Continue rec "1.prems"(2,4) inv by simp
        then obtain new' where "all_answered (messages (session w'))"
          and "inference_log w' = inference_log w1 @ new'" and "list_all all_answered new'"
          by blast
        then have "all_answered (messages (session w'))"
          and "inference_log w' = inference_log w @ (messages (session w) # new')"
          and "list_all all_answered (messages (session w) # new')"
          using log1 "1.prems"(3) by simp_all
        then show ?thesis by blast
      qed
    qed
  qed
qed


text \<open>The steps of the agent whose backend asks for the tool \<open>echo\<close> and then answers.\<close>

lemma run_step_continue:
  assumes "onEvent (config A) = None"
    and "llm_call A (llm_input A w) = Inr response"
    and "tool_calls_of (out_content response) \<noteq> []"
    and "pushMessage env Assistant (out_content response) (log_inference w) = (a, w1)"
    and "snd (executeAll (registry A) no_options (tool_calls_of (out_content response))
               (tool_context w1 a)) = Inr results"
  shows "run_step A env k w =
           (snd (pushMessage env ToolRole (map ToolResultC results) w1), Inr Continue)"
proof -
  note q = no_callback_quiet [OF assms(1)]
  have e: "emit_tool_calls A (out_content response) = (out_content response, None)"
    using q by (rule emit_tool_calls_quiet)
  have l: "with_last_content (out_content response) w1 = w1"
    using assms(4) by (rule with_last_content_pushed)
  show ?thesis
    using assms(2-5) q(1)
    by (simp add: run_step_def or_throw_def emit_all_quiet e l run_tools_def Let_def
        split: prod.splits)
qed

lemma calling_agent_no_callback: "onEvent (config (calling_agent n)) = None"
  by (simp add: calling_agent_def)

lemma calling_agent_quiet: "\<forall>ev. emit (calling_agent n) ev = None"
  by (simp add: emit_def calling_agent_def)

lemma calling_agent_asks:
  assumes "length (messages (session w)) < n"
  shows "run_step (calling_agent n) scenario_env k w = (asked w, Inr Continue)"
proof -
  let ?call = "\<lparr>tc_id = ''call-a'', tc_name = ''echo'', tc_arguments = JArr []\<rparr>"
  let ?response = "\<lparr>out_content = [ToolCallC ?call], out_finishReason = ''stop'',
                     out_usage = \<lparr>inputTokens = 0, outputTokens = 0\<rparr>\<rparr>"
  have c: "llm_call (calling_agent n) (llm_input (calling_agent n) w) = Inr ?response"
    using assms
    by (simp add: calling_agent_def llm_input_def LLMClient_call_def calling_backend_def
        parseResponseOutput_def parse_or_raw_def scenario_env_def mapResponseStatus_def)
  have t: "tool_calls_of (out_content ?response) = [?call]"
    by (simp add: tool_calls_of_def)
  obtain a w1 where p: "pushMessage scenario_env Assistant (out_content ?response) (log_inference w) = (a, w1)"
    by (cases "pushMessage scenario_env Assistant (out_content ?response) (log_inference w)")
  have e: "snd (executeAll (registry (calling_agent n)) no_options
                  (tool_calls_of (out_content ?response)) (tool_context w1 a)) =
           Inr [\<lparr>tr_toolCallId = ''call-a'', tr_result = ''ok'', tr_isError = Some False\<rparr>]"
    unfolding t
    by (simp add: executeAll_def execute_call_no_options toolResultContent_def
        calling_agent_def register_def get_def echo_tool_def)
  have "run_step (calling_agent n) scenario_env k w =
          (snd (pushMessage scenario_env ToolRole
                  (map ToolResultC [\<lparr>tr_toolCallId = ''call-a'', tr_result = ''ok'', tr_isError = Some False\<rparr>])
                  w1), Inr Continue)"
    by (rule run_step_continue [OF calling_agent_no_callback c _ p e]) (simp add: tool_calls_of_def)
  moreover have "w1 = snd (pushMessage scenario_env Assistant [ToolCallC ?call] (log_inference w))"
    using p by simp
  ultimately show ?thesis
    by (simp add: asked_def)
qed

lemma calling_agent_answers:
  assumes "\<not> length (messages (session w)) < n"
  shows "run_step (calling_agent n) scenario_env k w = (answered w, Inr Break)"
proof -
  let ?response = "\<lparr>out_content = [TextC ''done''], out_finishReason = ''stop'',
                     out_usage = \<lparr>inputTokens = 0, outputTokens = 0\<rparr>\<rparr>"
  have c: "llm_call (calling_agent n) (llm_input (calling_agent n) w) = Inr ?response"
    using assms
    by (simp add: calling_agent_def llm_input_def LLMClient_call_def calling_backend_def
        parseResponseOutput_def mapResponseStatus_def)
  have t: "tool_calls_of (out_content ?response) = []"
    by (simp add: tool_calls_of_def)
  from run_step_break [OF calling_agent_quiet c t]
  show ?thesis by (simp add: answered_def)
qed

lemma calling_agent_loop_asks:
  assumes "k < 100" and "length (messages (session w)) < n"
  shows "run_loop (calling_agent n) scenario_env k w =
         run_loop (calling_agent n) scenario_env (Suc k) (asked w)"
  using assms
  by (subst run_loop.simps) (simp add: calling_agent_asks, simp add: calling_agent_def)

lemma calling_agent_loop_answers:
  assumes "k < 100" and "\<not> length (messages (session w)) < n"
  shows "run_loop (calling_agent n) scenario_env k w = (answered w, Inr (Suc k))"
  using assms
  by (subst run_loop.simps) (simp add: calling_agent_answers, simp add: calling_agent_def)

lemma messages_pushMessage:
  "messages (session (snd (pushMessage env role content w))) =
     messages (session w) @ [fst (pushMessage env role content w)]"
  by (simp add: pushMessage_def Let_def)

lemma content_pushMessage: "msg_content (fst (pushMessage env role content w)) = content"
  by (simp add: pushMessage_def Let_def)

lemma status_pushMessage:
  "status (session (snd (pushMessage env role content w))) = status (session w)"
  by (simp add: pushMessage_def Let_def)

lemma session_log_inference: "session (log_inference w) = session w"
  by (simp add: log_inference_def)

lemma call_ids_of_push:
  "call_ids_of (fst (pushMessage env role content w)) = map tc_id (tool_calls_of content)"
  by (simp add: call_ids_of_def content_pushMessage)

lemma result_ids_of_push:
  "result_ids_of (fst (pushMessage env role content w)) = result_ids_in content"
  by (simp add: result_ids_of_def content_pushMessage)

lemma asked_messages:
  "map call_ids_of (messages (session (asked w))) =
     map call_ids_of (messages (session w)) @ [[''call-a''], []]"
  "map result_ids_of (messages (session (asked w))) =
     map result_ids_of (messages (session w)) @ [[], [''call-a'']]"
  "length (messages (session (asked w))) = length (messages (session w)) + 2"
  "status (session (asked w)) = status (session w)"
  by (simp_all add: asked_def messages_pushMessage call_ids_of_push result_ids_of_push
      status_pushMessage session_log_inference tool_calls_of_def result_ids_in_def)

lemma answered_messages:
  "map call_ids_of (messages (session (answered w))) =
     map call_ids_of (messages (session w)) @ [[]]"
  "map result_ids_of (messages (session (answered w))) =
     map result_ids_of (messages (session w)) @ [[]]"
  "length (messages (session (answered w))) = length (messages (session w)) + 1"
  "status (session (answered w)) = status (session w)"
  by (simp_all add: answered_def messages_pushMessage call_ids_of_push result_ids_of_push
      status_pushMessage session_log_inference tool_calls_of_def result_ids_in_def)

lemma run_success:
  assumes "run_loop A env 0 (updateSessionStatus Running (snd (addUserMessage env userMessage w))) = (W, Inr n)"
    and "n < maxSteps (config A)"
  shows "run A env w userMessage = (updateSessionStatus Completed W, Inr (messages (session W)))"
  using assms by (simp add: run_def after_loop_def run_catch_def)

lemma run_Inr:
  assumes "snd (run A env w userMessage) = Inr ms"
  shows "\<exists>W n. run_loop A env 0 (updateSessionStatus Running (snd (addUserMessage env userMessage w))) = (W, Inr n)
             \<and> run A env w userMessage = (updateSessionStatus Completed W, Inr (messages (session W)))"
proof -
  let ?w1 = "updateSessionStatus Running (snd (addUserMessage env userMessage w))"
  obtain W out where l: "run_loop A env 0 ?w1 = (W, out)"
    by (cases "run_loop A env 0 ?w1")
  show ?thesis
  proof (cases out)
    case (Inl e)
    with l assms show ?thesis
      by (simp add: run_def after_loop_def run_catch_def split: option.splits)
  next
    case (Inr n)
    show ?thesis
    proof (cases "n < maxSteps (config A)")
      case True
      with l Inr run_success show ?thesis by blast
    next
      case False
      with l Inr assms show ?thesis
        by (simp add: run_def after_loop_def run_catch_def split: option.splits)
    qed
  qed
qed

lemma user_message_ids:
  "call_ids_of (fst (addUserMessage env userMessage w)) = []"
  "result_ids_of (fst (addUserMessage env userMessage w)) = []"
  by (simp_all add: addUserMessage_def call_ids_of_push result_ids_of_push tool_calls_of_def
      result_ids_in_def)

lemma messages_after_user_message:
  "messages (session (updateSessionStatus st (snd (addUserMessage env userMessage w)))) =
     messages (session w) @ [fst (addUserMessage env userMessage w)]"
  by (simp add: messages_updateSessionStatus addUserMessage_def messages_pushMessage)

lemma not_all_answered:
  assumes "map call_ids_of ms = (c # cs) # css" and "map result_ids_of ms = rs # rss"
    and "count_list (concat rss) c \<noteq> 1"
  shows "\<not> all_answered ms"
proof (cases ms)
  case Nil
  with assms show ?thesis by simp
next
  case (Cons m rest)
  with assms have "call_ids_of m = c # cs" and "map result_ids_of rest = rss"
    by simp_all
  with assms(3) Cons show ?thesis
    by (simp add: count_results_def)
qed

text \<open>
  C4 as stated fails. A session that already holds an assistant message with the tool call
  \<open>call-x\<close> is run with a backend that asks for the tool call \<open>call-a\<close> in two successive
  responses and then answers with a text. Each response has distinct identifiers and \<open>run\<close>
  returns successfully, but \<open>call-x\<close> has no tool result, and the first \<open>call-a\<close> has two
  tool results with its identifier in later messages.
\<close>

theorem unanswered_and_twice_answered_calls:
  "snd (run (calling_agent 5) scenario_env world_with_history ''hi'') =
     Inr (messages (session (fst (run (calling_agent 5) scenario_env world_with_history ''hi''))))
   \<and> status (session (fst (run (calling_agent 5) scenario_env world_with_history ''hi''))) = Completed
   \<and> map call_ids_of (messages (session (fst (run (calling_agent 5) scenario_env world_with_history ''hi'')))) =
       [[''call-x''], [], [''call-a''], [], [''call-a''], [], []]
   \<and> map result_ids_of (messages (session (fst (run (calling_agent 5) scenario_env world_with_history ''hi'')))) =
       [[], [], [], [''call-a''], [], [''call-a''], []]
   \<and> \<not> all_answered (messages (session (fst (run (calling_agent 5) scenario_env world_with_history ''hi''))))"
proof -
  let ?w1 = "updateSessionStatus Running (snd (addUserMessage scenario_env ''hi'' world_with_history))"
  let ?W = "answered (asked (asked ?w1))"
  have old: "map call_ids_of (messages (session world_with_history)) = [[''call-x'']]"
    "map result_ids_of (messages (session world_with_history)) = [[]]"
    by (simp_all add: world_with_history_def fresh_session_def call_ids_of_def result_ids_of_def
        tool_calls_of_def result_ids_in_def call_of_def)
  have c1: "map call_ids_of (messages (session ?w1)) = [[''call-x''], []]"
    and r1: "map result_ids_of (messages (session ?w1)) = [[], []]"
    by (simp_all add: messages_after_user_message user_message_ids old)
  have n1: "length (messages (session ?w1)) = 2"
    using c1 by (metis length_map length_Cons list.size(3) numeral_2_eq_2)
  have "run_loop (calling_agent 5) scenario_env 0 ?w1 =
          run_loop (calling_agent 5) scenario_env (Suc 0) (asked ?w1)"
    by (rule calling_agent_loop_asks) (simp_all add: n1)
  also have "\<dots> = run_loop (calling_agent 5) scenario_env (Suc (Suc 0)) (asked (asked ?w1))"
    by (rule calling_agent_loop_asks) (simp_all add: n1 asked_messages)
  also have "\<dots> = (?W, Inr (Suc (Suc (Suc 0))))"
    by (rule calling_agent_loop_answers) (simp_all add: n1 asked_messages)
  finally have loop: "run_loop (calling_agent 5) scenario_env 0 ?w1 = (?W, Inr (Suc (Suc (Suc 0))))" .
  have r: "run (calling_agent 5) scenario_env world_with_history ''hi'' =
             (updateSessionStatus Completed ?W, Inr (messages (session ?W)))"
    by (rule run_success [OF loop]) (simp add: calling_agent_def)
  have c: "map call_ids_of (messages (session ?W)) =
             [[''call-x''], [], [''call-a''], [], [''call-a''], [], []]"
    by (simp add: answered_messages asked_messages c1)
  have s: "map result_ids_of (messages (session ?W)) =
             [[], [], [], [''call-a''], [], [''call-a''], []]"
    by (simp add: answered_messages asked_messages r1)
  have "\<not> all_answered (messages (session ?W))"
    by (rule not_all_answered [OF c s]) simp
  with c s show ?thesis
    by (simp add: r messages_updateSessionStatus status_updateSessionStatus)
qed

text \<open>
  C4, amended. For every session whose transcript before the call has, for each of its
  tool calls, exactly one tool result with a matching identifier in a later message, and on
  which \<open>run\<close> returns successfully, and assuming the tool-call identifiers of the whole
  transcript are pairwise distinct (across the responses and the earlier messages, not
  only within each response): every tool_call block in the session's transcript has
  exactly one tool_result block with a matching identifier in a later message, and every
  transcript sent with an inference request of the run has all its tool calls answered in
  this way, so that each step's tool message is appended before the next step's inference
  call is made. The inference client of the agent is the \<open>LLMClient\<close>, as the constructor
  of \<open>Agent\<close> makes it.
\<close>

theorem run_answers_every_tool_call:
  assumes "snd (run A env w userMessage) = Inr ms"
    and "llm_call A = LLMClient_call env' backend"
    and "all_answered (messages (session w))"
    and "distinct (call_ids (messages (session (fst (run A env w userMessage)))))"
  shows "ms = messages (session (fst (run A env w userMessage)))
       \<and> status (session (fst (run A env w userMessage))) = Completed
       \<and> all_answered (messages (session (fst (run A env w userMessage))))
       \<and> (\<exists>new. inference_log (fst (run A env w userMessage)) = inference_log w @ new
                \<and> list_all all_answered new)"
proof -
  let ?w1 = "updateSessionStatus Running (snd (addUserMessage env userMessage w))"
  from run_Inr [OF assms(1)] obtain W n where
    loop: "run_loop A env 0 ?w1 = (W, Inr n)"
    and r: "run A env w userMessage = (updateSessionStatus Completed W, Inr (messages (session W)))"
    by blast
  have l1: "inference_log ?w1 = inference_log w"
    by (simp add: updateSessionStatus_def addUserMessage_def pushMessage_def Let_def)
  have a1: "all_answered (messages (session ?w1))"
    unfolding messages_after_user_message using assms(3)
    by (rule all_answered_append) (simp_all add: count_results_single user_message_ids)
  have d: "distinct (call_ids (messages (session W)))"
    using assms(4) by (simp add: r messages_updateSessionStatus)
  from run_loop_answered [OF loop assms(2) a1 d]
  have "all_answered (messages (session W))"
    and "\<exists>new. inference_log W = inference_log ?w1 @ new \<and> list_all all_answered new"
    by simp_all
  moreover have "inference_log (updateSessionStatus Completed W) = inference_log W"
    by (simp add: updateSessionStatus_def)
  moreover have "ms = messages (session W)"
    using assms(1) r by simp
  ultimately show ?thesis
    by (simp add: r l1 messages_updateSessionStatus status_updateSessionStatus)
qed

theorem run_answers_every_tool_call_witness:
  "map call_ids_of (messages (session (fst (run (calling_agent 2) scenario_env fresh_world ''hi'')))) =
     [[], [''call-a''], [], []]
   \<and> map result_ids_of (messages (session (fst (run (calling_agent 2) scenario_env fresh_world ''hi'')))) =
     [[], [], [''call-a''], []]
   \<and> status (session (fst (run (calling_agent 2) scenario_env fresh_world ''hi''))) = Completed
   \<and> all_answered (messages (session (fst (run (calling_agent 2) scenario_env fresh_world ''hi''))))"
proof -
  let ?w1 = "updateSessionStatus Running (snd (addUserMessage scenario_env ''hi'' fresh_world))"
  let ?W = "answered (asked ?w1)"
  have old: "messages (session fresh_world) = []"
    by (simp add: fresh_world_def fresh_session_def)
  have c1: "map call_ids_of (messages (session ?w1)) = [[]]"
    and r1: "map result_ids_of (messages (session ?w1)) = [[]]"
    and n1: "length (messages (session ?w1)) = 1"
    by (simp_all add: messages_after_user_message user_message_ids old)
  have "run_loop (calling_agent 2) scenario_env 0 ?w1 =
          run_loop (calling_agent 2) scenario_env (Suc 0) (asked ?w1)"
    by (rule calling_agent_loop_asks) (simp_all add: n1)
  also have "\<dots> = (?W, Inr (Suc (Suc 0)))"
    by (rule calling_agent_loop_answers) (simp_all add: n1 asked_messages)
  finally have loop: "run_loop (calling_agent 2) scenario_env 0 ?w1 = (?W, Inr (Suc (Suc 0)))" .
  have r: "run (calling_agent 2) scenario_env fresh_world ''hi'' =
             (updateSessionStatus Completed ?W, Inr (messages (session ?W)))"
    by (rule run_success [OF loop]) (simp add: calling_agent_def)
  have c: "map call_ids_of (messages (session ?W)) = [[], [''call-a''], [], []]"
    by (simp add: answered_messages asked_messages c1)
  have s: "map result_ids_of (messages (session ?W)) = [[], [], [''call-a''], []]"
    by (simp add: answered_messages asked_messages r1)
  have h1: "snd (run (calling_agent 2) scenario_env fresh_world ''hi'') = Inr (messages (session ?W))"
    by (simp add: r)
  have h2: "llm_call (calling_agent 2) = LLMClient_call scenario_env (calling_backend 2)"
    by (simp add: calling_agent_def)
  have h3: "all_answered (messages (session fresh_world))"
    by (simp add: fresh_world_def fresh_session_def)
  have "call_ids (messages (session ?W)) = [''call-a'']"
    using c by (simp add: call_ids_def)
  then have h4: "distinct (call_ids (messages (session (fst (run (calling_agent 2) scenario_env fresh_world ''hi'')))))"
    by (simp add: r messages_updateSessionStatus)
  from run_answers_every_tool_call [OF h1 h2 h3 h4] c s
  show ?thesis
    by (simp add: r messages_updateSessionStatus status_updateSessionStatus)
qed

end
